theory Spec2Isabelle
  imports Complex_Main "HOL-Library.Log_Nat"
begin

section \<open>Numbers and their printing\<close>

text \<open>
  The TypeScript sources compute with JavaScript numbers. Times, normalised coordinates
  and scale factors are modelled as exact reals; pixel counts (the results of
  \<^verbatim>\<open>Math.round\<close>, the frame width and height) are modelled as integers. IEEE rounding
  error, NaN and the infinities are outside this model. The one property that speaks of
  exact equality of a computed number, the strength of a zoom region, is settled on a
  second embedding of that function in which every operation is rounded to binary64.
\<close>

definition Math_round :: "real \<Rightarrow> int" where
  \<comment> \<open>\<^verbatim>\<open>Math.round\<close>: the nearest integer, a tie going up.\<close>
  "Math_round v = \<lfloor>v + 1 / 2\<rfloor>"

definition digit_char :: "nat \<Rightarrow> char" where
  "digit_char d = (''0123456789'' ! d)"

fun show_nat :: "nat \<Rightarrow> string" where
  "show_nat n = (if n < 10 then [digit_char n] else show_nat (n div 10) @ [digit_char (n mod 10)])"

declare show_nat.simps [simp del]

definition show_int :: "int \<Rightarrow> string" where
  \<comment> \<open>What a template literal prints for an integer-valued number.\<close>
  "show_int i = (if i < 0 then ''-'' @ show_nat (nat (- i)) else show_nat (nat i))"

definition pad3 :: "string \<Rightarrow> string" where
  "pad3 s = replicate (3 - length s) (CHR ''0'') @ s"

definition toFixed3 :: "real \<Rightarrow> string" where
  \<comment> \<open>\<^verbatim>\<open>v.toFixed(3)\<close>: the sign first, then the magnitude rounded to the nearest
      thousandth (the larger one on a tie), with exactly three decimals.\<close>
  "toFixed3 v =
     (let n = nat \<lfloor>\<bar>v\<bar> * 1000 + 1 / 2\<rfloor>
      in (if v < 0 then ''-'' else '''') @ show_nat (n div 1000) @ ''.'' @ pad3 (show_nat (n mod 1000)))"

definition js_rem :: "int \<Rightarrow> int \<Rightarrow> int" where
  \<comment> \<open>The \<^verbatim>\<open>%\<close> operator: the remainder takes the sign of the dividend.\<close>
  "js_rem a b = sgn a * (\<bar>a\<bar> mod \<bar>b\<bar>)"

definition join :: "string \<Rightarrow> string list \<Rightarrow> string" where
  \<comment> \<open>\<^verbatim>\<open>Array.prototype.join\<close>\<close>
  "join sep xs = (case xs of [] \<Rightarrow> '''' | y # ys \<Rightarrow> y @ concat (map (\<lambda>s. sep @ s) ys))"

section \<open>Data model (types.ts)\<close>

datatype ZoomDepth = Depth1 | Depth2 | Depth3 | Depth4 | Depth5 | Depth6

record ZoomFocus =
  cx :: real
  cy :: real

text \<open>
  \<^verbatim>\<open>ZoomRegion\<close>, \<^verbatim>\<open>TrimRegion\<close> and \<^verbatim>\<open>AnnotationRegion\<close> share the fields
  \<^verbatim>\<open>id\<close>, \<^verbatim>\<open>startMs\<close> and \<^verbatim>\<open>endMs\<close>; they are one base record here, extended by the
  fields each interface adds.
\<close>

record TimedRegion =
  region_id :: string
  startMs :: real
  endMs :: real

record ZoomRegion = TimedRegion +
  depth :: ZoomDepth
  focus :: ZoomFocus

type_synonym TrimRegion = TimedRegion

fun ZOOM_DEPTH_SCALES :: "ZoomDepth \<Rightarrow> real" where
  "ZOOM_DEPTH_SCALES Depth1 = 1.25"
| "ZOOM_DEPTH_SCALES Depth2 = 1.5"
| "ZOOM_DEPTH_SCALES Depth3 = 1.8"
| "ZOOM_DEPTH_SCALES Depth4 = 2.2"
| "ZOOM_DEPTH_SCALES Depth5 = 3.5"
| "ZOOM_DEPTH_SCALES Depth6 = 5.0"

record CropRegion =
  crop_x :: real
  crop_y :: real
  crop_width :: real
  crop_height :: real

section \<open>Zoom (zoom.ts)\<close>

definition TRANSITION_MS :: real where
  "TRANSITION_MS = 320"

definition smoothStep :: "real \<Rightarrow> real" where
  "smoothStep t = (let c = max 0 (min 1 t) in c * c * (3 - 2 * c))"

definition clamp :: "real \<Rightarrow> real \<Rightarrow> real \<Rightarrow> real" where
  \<comment> \<open>The NaN branch of the source has no counterpart on reals.\<close>
  "clamp v lo hi = min hi (max lo v)"

definition computeRegionStrength :: "ZoomRegion \<Rightarrow> real \<Rightarrow> real" where
  "computeRegionStrength region timeMs =
     (let leadInStart = startMs region - TRANSITION_MS;
          leadOutEnd = endMs region + TRANSITION_MS
      in if timeMs < leadInStart \<or> timeMs > leadOutEnd then 0
         else let fadeIn = smoothStep ((timeMs - leadInStart) / TRANSITION_MS);
                  fadeOut = smoothStep ((leadOutEnd - timeMs) / TRANSITION_MS)
              in min fadeIn fadeOut)"

definition clampFocus :: "ZoomFocus \<Rightarrow> ZoomDepth \<Rightarrow> ZoomFocus" where
  "clampFocus f d =
     (let scale = ZOOM_DEPTH_SCALES d;
          margin = 1 / (2 * scale)
      in \<lparr> cx = clamp (cx f) margin (1 - margin), cy = clamp (cy f) margin (1 - margin) \<rparr>)"

text \<open>
  Binary64 arithmetic: the result of an operation is its exact result rounded to the
  nearest number with a 53-bit significand, a tie going to the even significand. Numbers
  below \<open>2 ^ -1022\<close> in magnitude are rounded on the subnormal grid of step \<open>2 ^ -1074\<close>.
  Overflow to an infinity is not modelled.
\<close>

definition binade :: "real \<Rightarrow> int" where
  \<comment> \<open>for \<open>x \<noteq> 0\<close>, the exponent \<open>e\<close> with \<open>2 ^ e \<le> \<bar>x\<bar> < 2 ^ (e + 1)\<close>\<close>
  "binade x = (if 1 \<le> \<bar>x\<bar> then bitlen \<lfloor>\<bar>x\<bar>\<rfloor> - 1 else - bitlen (\<lceil>1 / \<bar>x\<bar>\<rceil> - 1))"

definition round_half_even :: "real \<Rightarrow> int" where
  "round_half_even v =
     (let n = \<lfloor>v\<rfloor>; f = v - of_int n
      in if f < 1 / 2 then n else if 1 / 2 < f then n + 1 else if even n then n else n + 1)"

definition fl64 :: "real \<Rightarrow> real" where
  \<comment> \<open>rounding to binary64\<close>
  "fl64 x =
     (if x = 0 then 0
      else let q = 2 powi (max (binade x) (- 1022) - 52)
           in of_int (round_half_even (x / q)) * q)"

definition smoothStep_b64 :: "real \<Rightarrow> real" where
  \<comment> \<open>\<^verbatim>\<open>c * c * (3 - 2 * c)\<close>, every operation rounded\<close>
  "smoothStep_b64 t = (let c = max 0 (min 1 t) in fl64 (fl64 (c * c) * fl64 (3 - fl64 (2 * c))))"

definition computeRegionStrength_b64 :: "ZoomRegion \<Rightarrow> real \<Rightarrow> real" where
  \<comment> \<open>\<^verbatim>\<open>computeRegionStrength\<close>, every operation rounded\<close>
  "computeRegionStrength_b64 region t =
     (let leadInStart = fl64 (startMs region - TRANSITION_MS);
          leadOutEnd = fl64 (endMs region + TRANSITION_MS)
      in if t < leadInStart \<or> t > leadOutEnd then 0
         else let fadeIn = smoothStep_b64 (fl64 (fl64 (t - leadInStart) / TRANSITION_MS));
                  fadeOut = smoothStep_b64 (fl64 (fl64 (leadOutEnd - t) / TRANSITION_MS))
              in min fadeIn fadeOut)"

definition generateStaticZoomFilter :: "ZoomFocus \<Rightarrow> ZoomDepth \<Rightarrow> int \<Rightarrow> int \<Rightarrow> string" where
  "generateStaticZoomFilter f d inputWidth inputHeight =
     (let scale = ZOOM_DEPTH_SCALES d;
          clamped = clampFocus f d;
          cropW = Math_round (of_int inputWidth / scale);
          cropH = Math_round (of_int inputHeight / scale);
          cropX = Math_round (cx clamped * of_int inputWidth - of_int cropW / 2);
          cropY = Math_round (cy clamped * of_int inputHeight - of_int cropH / 2)
      in ''crop='' @ show_int cropW @ '':'' @ show_int cropH @ '':'' @ show_int cropX @ '':''
           @ show_int cropY @ '',scale='' @ show_int inputWidth @ '':'' @ show_int inputHeight
           @ '':flags=lanczos'')"

section \<open>Crop (crop.ts)\<close>

definition even_down :: "int \<Rightarrow> int" where
  \<comment> \<open>\<^verbatim>\<open>w % 2 === 0 ? w : w - 1\<close>\<close>
  "even_down w = (if js_rem w 2 = 0 then w else w - 1)"

definition generateCropFilter :: "CropRegion \<Rightarrow> int \<Rightarrow> int \<Rightarrow> string" where
  "generateCropFilter crop inputWidth inputHeight =
     (let x = Math_round (crop_x crop * of_int inputWidth);
          y = Math_round (crop_y crop * of_int inputHeight);
          w = Math_round (crop_width crop * of_int inputWidth);
          h = Math_round (crop_height crop * of_int inputHeight);
          evenW = even_down w;
          evenH = even_down h
      in ''crop='' @ show_int evenW @ '':'' @ show_int evenH @ '':'' @ show_int x @ '':'' @ show_int y)"

section \<open>Trim (trim.ts)\<close>

text \<open>
  A template literal prints a number that need not be an integer with the runtime's
  \<^verbatim>\<open>Number::toString\<close>, whose digits depend on the binary64 representation. It is taken
  as the parameter \<open>numStr\<close> wherever the source prints such a number; the results below
  hold for every choice of it.
\<close>

record Segment =
  startSec :: real
  endSec :: real

definition trim_iter :: "Segment list \<times> real \<Rightarrow> TrimRegion \<Rightarrow> Segment list \<times> real" where
  \<comment> \<open>One pass of the \<^verbatim>\<open>for (const trim of sorted)\<close> body on \<open>(segments, cursor)\<close>.\<close>
  "trim_iter st trim =
     (let segments = fst st; cursor = snd st;
          trimStart = startMs trim / 1000;
          trimEnd = endMs trim / 1000
      in (if cursor < trimStart
          then segments @ [\<lparr> startSec = cursor, endSec = trimStart \<rparr>]
          else segments, trimEnd))"

definition computeKeptSegments :: "TrimRegion list \<Rightarrow> real \<Rightarrow> Segment list" where
  "computeKeptSegments trimRegions totalDurationMs =
     (if length trimRegions = 0 then [\<lparr> startSec = 0, endSec = totalDurationMs / 1000 \<rparr>]
      else
        let sorted = sort_key startMs trimRegions;
            st = foldl trim_iter ([], 0) sorted;
            segments = fst st; cursor = snd st;
            totalSec = totalDurationMs / 1000
        in if cursor < totalSec
           then segments @ [\<lparr> startSec = cursor, endSec = totalSec \<rparr>]
           else segments)"

definition computeEffectiveDuration :: "TrimRegion list \<Rightarrow> real \<Rightarrow> real" where
  "computeEffectiveDuration trimRegions totalDurationMs =
     (let trimmedMs = foldl (\<lambda>sum r. sum + (endMs r - startMs r)) 0 trimRegions
      in totalDurationMs - trimmedMs)"

definition trim_filter_iter ::
  "Segment list \<Rightarrow> bool \<Rightarrow> string list \<times> string list \<times> string list \<Rightarrow> nat
     \<Rightarrow> string list \<times> string list \<times> string list" where
  \<comment> \<open>One pass of the indexed loop of \<^verbatim>\<open>generateTrimFilter\<close> on \<open>(filters, vLabels, aLabels)\<close>.\<close>
  "trim_filter_iter segments hasAudio st i =
     (case st of (filters, vLabels, aLabels) \<Rightarrow>
        let seg = segments ! i;
            vLabel = ''[v'' @ show_nat i @ '']'';
            aLabel = ''[a'' @ show_nat i @ '']'';
            filters1 = filters @
              [''[0:v]trim=start='' @ toFixed3 (startSec seg) @ '':end='' @ toFixed3 (endSec seg)
                 @ '',setpts=PTS-STARTPTS'' @ vLabel];
            vLabels1 = vLabels @ [vLabel]
        in if hasAudio
           then (filters1 @
                   [''[0:a]atrim=start='' @ toFixed3 (startSec seg) @ '':end='' @ toFixed3 (endSec seg)
                      @ '',asetpts=PTS-STARTPTS'' @ aLabel],
                 vLabels1, aLabels @ [aLabel])
           else (filters1, vLabels1, aLabels))"

definition generateTrimFilter :: "(real \<Rightarrow> string) \<Rightarrow> TrimRegion list \<Rightarrow> real \<Rightarrow> bool \<Rightarrow> string" where
  \<comment> \<open>\<^verbatim>\<open>hasAudio\<close> defaults to \<^verbatim>\<open>true\<close>; a caller that omits it passes \<open>True\<close> here.\<close>
  "generateTrimFilter numStr trimRegions totalDurationMs hasAudio =
     (let segments = computeKeptSegments trimRegions totalDurationMs
      in if length segments = 0 then []
         else if length segments = 1 \<and> startSec (segments ! 0) = 0 then
           let seg = segments ! 0;
               filters = [''[0:v]trim=start='' @ numStr (startSec seg) @ '':end='' @ numStr (endSec seg)
                            @ '',setpts=PTS-STARTPTS[outv]''];
               filters1 = (if hasAudio
                           then filters @
                             [''[0:a]atrim=start='' @ numStr (startSec seg) @ '':end=''
                                @ numStr (endSec seg) @ '',asetpts=PTS-STARTPTS[outa]'']
                           else filters)
           in join ''; '' filters1
         else
           case foldl (trim_filter_iter segments hasAudio) ([], [], []) [0 ..< length segments] of
             (filters, vLabels, aLabels) \<Rightarrow>
               let n = length segments
               in if hasAudio
                  then join ''; '' (filters @
                         [join [] vLabels @ join [] aLabels @ ''concat=n='' @ show_nat n
                            @ '':v=1:a=1[outv][outa]''])
                  else join ''; '' (filters @
                         [join [] vLabels @ ''concat=n='' @ show_nat n @ '':v=1:a=0[outv]'']))"

section \<open>Background (background.ts)\<close>

datatype BackgroundType = BgColor | BgGradient | BgImage | BgBlur

record BackgroundConfig =
  bg_type :: BackgroundType
  color :: "string option"
  gradient :: "string option"
  imagePath :: "string option"
  blurRadius :: "real option"
  padding :: "real option"
  borderRadius :: "real option"

definition or_else :: "'a option \<Rightarrow> 'a \<Rightarrow> 'a" where
  \<comment> \<open>The \<^verbatim>\<open>??\<close> operator on an optional field.\<close>
  "or_else v d = (case v of None \<Rightarrow> d | Some a \<Rightarrow> a)"

definition rounded_mask :: "string \<Rightarrow> string" where
  \<comment> \<open>The alpha-mask filter, the same literal in the three generators; \<open>r\<close> is the printed radius.\<close>
  "rounded_mask r =
     ''[vid]format=yuva420p,''
     @ ''geq=lum='lum(X,Y)':cb='cb(X,Y)':cr='cr(X,Y)':''
     @ ''a='if(gt(pow(min(X,W-X)-'' @ r @ '',2)+pow(min(Y,H-Y)-'' @ r @ '',2),pow('' @ r @ '',2))*''
     @ ''lt(min(X,W-X),'' @ r @ '')*lt(min(Y,H-Y),'' @ r @ ''),0,255)'[rounded]''"

definition overlay_tail :: "(real \<Rightarrow> string) \<Rightarrow> real \<Rightarrow> int \<Rightarrow> string list" where
  \<comment> \<open>The closing \<^verbatim>\<open>if (borderRadius > 0) ... else ...\<close> of the three generators.\<close>
  "overlay_tail numStr borderRadius' padPx =
     (if borderRadius' > 0
      then [rounded_mask (numStr borderRadius'),
            ''[bg][rounded]overlay='' @ show_int padPx @ '':'' @ show_int padPx @ '':format=auto'']
      else [''[bg][vid]overlay='' @ show_int padPx @ '':'' @ show_int padPx @ '':format=auto''])"

definition colorBackgroundFilter ::
  "(real \<Rightarrow> string) \<Rightarrow> string \<Rightarrow> int \<Rightarrow> int \<Rightarrow> real \<Rightarrow> real \<Rightarrow> string" where
  "colorBackgroundFilter numStr color' videoWidth videoHeight padding' borderRadius' =
     (let padPx = Math_round ((padding' / 100) * of_int (min videoWidth videoHeight));
          canvasW = videoWidth;
          canvasH = videoHeight;
          innerW = canvasW - padPx * 2;
          innerH = canvasH - padPx * 2;
          ffColor = (if take 1 color' = ''#'' then ''0x'' @ drop 1 color' else color');
          filters =
            [''[0:v]scale='' @ show_int innerW @ '':'' @ show_int innerH @ '':flags=lanczos[vid]'',
             ''color=c='' @ ffColor @ '':s='' @ show_int canvasW @ ''x'' @ show_int canvasH @ '':d=1[bg]'']
      in join ''; '' (filters @ overlay_tail numStr borderRadius' padPx))"

definition blurBackgroundFilter ::
  "(real \<Rightarrow> string) \<Rightarrow> real \<Rightarrow> int \<Rightarrow> int \<Rightarrow> real \<Rightarrow> real \<Rightarrow> string" where
  "blurBackgroundFilter numStr blurRadius' videoWidth videoHeight padding' borderRadius' =
     (let padPx = Math_round ((padding' / 100) * of_int (min videoWidth videoHeight));
          innerW = videoWidth - padPx * 2;
          innerH = videoHeight - padPx * 2;
          filters =
            [''[0:v]scale='' @ show_int videoWidth @ '':'' @ show_int videoHeight
               @ '':flags=lanczos,boxblur='' @ numStr blurRadius' @ '':'' @ numStr blurRadius' @ ''[bg]'',
             ''[0:v]scale='' @ show_int innerW @ '':'' @ show_int innerH @ '':flags=lanczos[vid]'']
      in join ''; '' (filters @ overlay_tail numStr borderRadius' padPx))"

definition imageBackgroundFilter ::
  "(real \<Rightarrow> string) \<Rightarrow> int \<Rightarrow> int \<Rightarrow> real \<Rightarrow> real \<Rightarrow> string" where
  "imageBackgroundFilter numStr videoWidth videoHeight padding' borderRadius' =
     (let padPx = Math_round ((padding' / 100) * of_int (min videoWidth videoHeight));
          innerW = videoWidth - padPx * 2;
          innerH = videoHeight - padPx * 2;
          filters =
            [''[1:v]scale='' @ show_int videoWidth @ '':'' @ show_int videoHeight
               @ '':flags=lanczos:force_original_aspect_ratio=increase,crop=''
               @ show_int videoWidth @ '':'' @ show_int videoHeight @ ''[bg]'',
             ''[0:v]scale='' @ show_int innerW @ '':'' @ show_int innerH @ '':flags=lanczos[vid]'']
      in join ''; '' (filters @ overlay_tail numStr borderRadius' padPx))"

definition generateBackgroundFilter ::
  "(real \<Rightarrow> string) \<Rightarrow> BackgroundConfig \<Rightarrow> int \<Rightarrow> int \<Rightarrow> string" where
  "generateBackgroundFilter numStr config videoWidth videoHeight =
     (let padding' = or_else (padding config) 0;
          borderRadius' = or_else (borderRadius config) 0
      in if padding' = 0 \<and> borderRadius' = 0
         then ''scale='' @ show_int videoWidth @ '':'' @ show_int videoHeight
         else case bg_type config of
                BgColor \<Rightarrow>
                  colorBackgroundFilter numStr (or_else (color config) ''#000000'')
                    videoWidth videoHeight padding' borderRadius'
              | BgBlur \<Rightarrow>
                  blurBackgroundFilter numStr (or_else (blurRadius config) 20)
                    videoWidth videoHeight padding' borderRadius'
              | BgImage \<Rightarrow> imageBackgroundFilter numStr videoWidth videoHeight padding' borderRadius'
              | BgGradient \<Rightarrow>
                  colorBackgroundFilter numStr ''#1a1a2e'' videoWidth videoHeight padding' borderRadius')"

section \<open>Annotations (annotations.ts)\<close>

datatype AnnotationType = AnnText | AnnArrow

datatype ArrowDirection =
  DirUp | DirDown | DirLeft | DirRight | DirUpRight | DirUpLeft | DirDownRight | DirDownLeft

record AnnotationRegion = TimedRegion +
  ann_type :: AnnotationType
  ann_text :: "string option"
  ann_x :: real
  ann_y :: real
  fontSize :: "real option"
  fontColor :: "string option"
  fontFamily :: "string option"
  backgroundColor :: "string option"
  arrowDirection :: "ArrowDirection option"
  arrowColor :: "string option"
  arrowSize :: "real option"

definition sq :: string where
  \<comment> \<open>a single quote\<close>
  "sq = [CHR 0x27]"

definition bs :: string where
  \<comment> \<open>a backslash\<close>
  "bs = [CHR 0x5C]"

definition replace_all :: "char \<Rightarrow> string \<Rightarrow> string \<Rightarrow> string" where
  \<comment> \<open>\<^verbatim>\<open>s.replace(/c/g, rep)\<close> for a one-character pattern\<close>
  "replace_all c rep s = concat (map (\<lambda>d. if d = c then rep else [d]) s)"

definition escapeDrawtext :: "string \<Rightarrow> string" where
  "escapeDrawtext t =
     replace_all (CHR 0x0A) (bs @ ''n'')
       (replace_all (CHR ''%'') ''%%''
         (replace_all (CHR '':'') (bs @ '':'')
           (replace_all (CHR 0x27) (sq @ bs @ sq @ sq)
             (replace_all (CHR 0x5C) (bs @ bs @ bs @ bs) t))))"

definition toFFmpegColor :: "string \<Rightarrow> string" where
  "toFFmpegColor hex =
     (if hex = ''transparent'' then ''0x00000000''
      else if take 1 hex = ''#'' then ''0x'' @ drop 1 hex
      else hex)"

definition enable_between :: "real \<Rightarrow> real \<Rightarrow> string" where
  \<comment> \<open>\<^verbatim>\<open>enable='between(t,${startSec.toFixed(3)},${endSec.toFixed(3)})'\<close>\<close>
  "enable_between startSec' endSec' =
     ''enable='between(t,'' @ toFixed3 startSec' @ '','' @ toFixed3 endSec' @ '')'' @ sq"

definition textAnnotationFilter ::
  "(real \<Rightarrow> string) \<Rightarrow> AnnotationRegion \<Rightarrow> int \<Rightarrow> int \<Rightarrow> string" where
  "textAnnotationFilter numStr annotation canvasWidth canvasHeight =
     (let x = Math_round ((ann_x annotation / 100) * of_int canvasWidth);
          y = Math_round ((ann_y annotation / 100) * of_int canvasHeight);
          fontSize' = or_else (fontSize annotation) 32;
          fontColor' = toFFmpegColor (or_else (fontColor annotation) ''#ffffff'');
          fontFamily' = or_else (fontFamily annotation) ''sans-serif'';
          text' = escapeDrawtext (or_else (ann_text annotation) []);
          startSec' = startMs annotation / 1000;
          endSec' = endMs annotation / 1000;
          parts =
            [''drawtext=text='' @ sq @ text' @ sq,
             ''x='' @ show_int x,
             ''y='' @ show_int y,
             ''fontsize='' @ numStr fontSize',
             ''fontcolor='' @ fontColor',
             ''fontfile='' @ sq @ sq,
             ''font='' @ sq @ fontFamily' @ sq,
             enable_between startSec' endSec'];
          parts1 =
            (case backgroundColor annotation of
               None \<Rightarrow> parts
             | Some b \<Rightarrow>
                 if b \<noteq> [] \<and> b \<noteq> ''transparent''
                 then parts @ [''box=1'', ''boxcolor='' @ toFFmpegColor b, ''boxborderw=8'']
                 else parts)
      in join '':'' parts1)"

fun getArrowCoords :: "ArrowDirection \<Rightarrow> int \<Rightarrow> int \<Rightarrow> real \<Rightarrow> int \<times> int \<times> int \<times> int" where
  \<comment> \<open>the result is \<open>(shaftX1, shaftY1, shaftX2, shaftY2)\<close>\<close>
  "getArrowCoords DirRight ax ay size' =
     (let half = Math_round (size' / 2) in (ax - half, ay, ax + half, ay))"
| "getArrowCoords DirLeft ax ay size' =
     (let half = Math_round (size' / 2) in (ax + half, ay, ax - half, ay))"
| "getArrowCoords DirUp ax ay size' =
     (let half = Math_round (size' / 2) in (ax, ay + half, ax, ay - half))"
| "getArrowCoords DirDown ax ay size' =
     (let half = Math_round (size' / 2) in (ax, ay - half, ax, ay + half))"
| "getArrowCoords DirUpRight ax ay size' =
     (let half = Math_round (size' / 2) in (ax - half, ay + half, ax + half, ay - half))"
| "getArrowCoords DirUpLeft ax ay size' =
     (let half = Math_round (size' / 2) in (ax + half, ay + half, ax - half, ay - half))"
| "getArrowCoords DirDownRight ax ay size' =
     (let half = Math_round (size' / 2) in (ax - half, ay - half, ax + half, ay + half))"
| "getArrowCoords DirDownLeft ax ay size' =
     (let half = Math_round (size' / 2) in (ax + half, ay - half, ax - half, ay + half))"

definition arrowAnnotationFilter :: "AnnotationRegion \<Rightarrow> int \<Rightarrow> int \<Rightarrow> string" where
  "arrowAnnotationFilter annotation canvasWidth canvasHeight =
     (let ax = Math_round ((ann_x annotation / 100) * of_int canvasWidth);
          ay = Math_round ((ann_y annotation / 100) * of_int canvasHeight);
          size' = or_else (arrowSize annotation) 60;
          color' = toFFmpegColor (or_else (arrowColor annotation) ''#34B27B'');
          direction = or_else (arrowDirection annotation) DirRight;
          startSec' = startMs annotation / 1000;
          endSec' = endMs annotation / 1000;
          enable = enable_between startSec' endSec'
      in case getArrowCoords direction ax ay size' of
           (shaftX1, shaftY1, shaftX2, shaftY2) \<Rightarrow>
             let thickness = max 3 (Math_round (size' / 15));
                 shaftW = (if \<bar>shaftX2 - shaftX1\<bar> = 0 then thickness else \<bar>shaftX2 - shaftX1\<bar>);
                 shaftH = (if \<bar>shaftY2 - shaftY1\<bar> = 0 then thickness else \<bar>shaftY2 - shaftY1\<bar>);
                 shaftX = min shaftX1 shaftX2;
                 shaftY = min shaftY1 shaftY2
             in ''drawbox=x='' @ show_int shaftX @ '':y='' @ show_int shaftY @ '':w='' @ show_int shaftW
                  @ '':h='' @ show_int shaftH @ '':color='' @ color' @ '':t=fill:'' @ enable)"

definition annotation_iter ::
  "(real \<Rightarrow> string) \<Rightarrow> int \<Rightarrow> int \<Rightarrow> string list \<Rightarrow> AnnotationRegion \<Rightarrow> string list" where
  \<comment> \<open>One pass of the loop of \<^verbatim>\<open>generateAnnotationFilters\<close> on \<open>filters\<close>.\<close>
  "annotation_iter numStr canvasWidth canvasHeight filters ann =
     (case ann_type ann of
        AnnText \<Rightarrow>
          (case ann_text ann of
             None \<Rightarrow> filters
           | Some t \<Rightarrow>
               if t \<noteq> [] then filters @ [textAnnotationFilter numStr ann canvasWidth canvasHeight]
               else filters)
      | AnnArrow \<Rightarrow> filters @ [arrowAnnotationFilter ann canvasWidth canvasHeight])"

definition generateAnnotationFilters ::
  "(real \<Rightarrow> string) \<Rightarrow> AnnotationRegion list \<Rightarrow> int \<Rightarrow> int \<Rightarrow> string" where
  "generateAnnotationFilters numStr annotations' canvasWidth canvasHeight =
     (if length annotations' = 0 then []
      else join '','' (foldl (annotation_iter numStr canvasWidth canvasHeight) [] annotations'))"

section \<open>Zoom keyframes and expressions (zoom.ts)\<close>

definition dominant_iter :: "real \<Rightarrow> ZoomRegion option \<times> real \<Rightarrow> ZoomRegion \<Rightarrow> ZoomRegion option \<times> real" where
  \<comment> \<open>One pass of the loop of \<^verbatim>\<open>findDominantRegion\<close> on \<open>(best, bestStrength)\<close>.\<close>
  "dominant_iter timeMs st r =
     (let s = computeRegionStrength r timeMs
      in if s > snd st then (Some r, s) else st)"

definition findDominantRegion :: "ZoomRegion list \<Rightarrow> real \<Rightarrow> ZoomRegion option \<times> real" where
  \<comment> \<open>the result is \<open>(region, strength)\<close>\<close>
  "findDominantRegion regions timeMs = foldl (dominant_iter timeMs) (None, 0) regions"

record ZoomKeyframe =
  timeMs :: real
  cropWidth :: real
  cropHeight :: real
  centerX :: real
  centerY :: real

definition keyframe_at :: "ZoomRegion list \<Rightarrow> real \<Rightarrow> ZoomKeyframe" where
  \<comment> \<open>The body of the sampling loop at tick \<open>t\<close>.\<close>
  "keyframe_at regions t =
     (case findDominantRegion regions t of
        (region, strength) \<Rightarrow>
          (case region of
             Some r \<Rightarrow>
               if strength > 0 then
                 let scale = ZOOM_DEPTH_SCALES (depth r);
                     clamped = clampFocus (focus r) (depth r);
                     zoomFraction = 1 / (1 + (scale - 1) * strength)
                 in \<lparr> timeMs = t, cropWidth = zoomFraction, cropHeight = zoomFraction,
                      centerX = 0.5 + (cx clamped - 0.5) * strength,
                      centerY = 0.5 + (cy clamped - 0.5) * strength \<rparr>
               else \<lparr> timeMs = t, cropWidth = 1, cropHeight = 1, centerX = 0.5, centerY = 0.5 \<rparr>
           | None \<Rightarrow> \<lparr> timeMs = t, cropWidth = 1, cropHeight = 1, centerX = 0.5, centerY = 0.5 \<rparr>))"

partial_function (option) sample_loop ::
  "ZoomRegion list \<Rightarrow> real \<Rightarrow> real \<Rightarrow> real \<Rightarrow> ZoomKeyframe list \<Rightarrow> ZoomKeyframe list option" where
  "sample_loop regions durationMs sampleIntervalMs t keyframes =
     (if t \<le> durationMs
      then sample_loop regions durationMs sampleIntervalMs (t + sampleIntervalMs)
             (keyframes @ [keyframe_at regions t])
      else Some keyframes)"

declare sample_loop.simps [code]

definition sampleZoomKeyframes :: "ZoomRegion list \<Rightarrow> real \<Rightarrow> real \<Rightarrow> ZoomKeyframe list option" where
  \<comment> \<open>\<open>None\<close>: the loop never ends. The default of \<^verbatim>\<open>sampleIntervalMs\<close> is 33.\<close>
  "sampleZoomKeyframes regions durationMs sampleIntervalMs =
     sample_loop regions durationMs sampleIntervalMs 0 []"

definition leadInExpr :: "real \<Rightarrow> real \<Rightarrow> real \<Rightarrow> int \<Rightarrow> int \<Rightarrow> string" where
  "leadInExpr startSec' activeStart transDur full zoomed =
     (let range = ''between(t,'' @ toFixed3 startSec' @ '','' @ toFixed3 activeStart @ '')'';
          progress = ''(t-'' @ toFixed3 startSec' @ '')/'' @ toFixed3 transDur;
          ss = ''(3*pow('' @ progress @ '',2)-2*pow('' @ progress @ '',3))''
      in ''if('' @ range @ '', '' @ show_int full @ ''+('' @ show_int zoomed @ ''-'' @ show_int full
           @ '')*'' @ ss @ '', '')"

definition activeExpr :: "real \<Rightarrow> real \<Rightarrow> int \<Rightarrow> string" where
  "activeExpr activeStart activeEnd zoomed =
     (let range = ''between(t,'' @ toFixed3 activeStart @ '','' @ toFixed3 activeEnd @ '')''
      in ''if('' @ range @ '', '' @ show_int zoomed @ '', '')"

definition leadOutExpr :: "real \<Rightarrow> real \<Rightarrow> real \<Rightarrow> int \<Rightarrow> int \<Rightarrow> string" where
  "leadOutExpr activeEnd endSec' transDur full zoomed =
     (let range = ''between(t,'' @ toFixed3 activeEnd @ '','' @ toFixed3 endSec' @ '')'';
          progress = ''('' @ toFixed3 endSec' @ ''-t)/'' @ toFixed3 transDur;
          ss = ''(3*pow('' @ progress @ '',2)-2*pow('' @ progress @ '',3))''
      in ''if('' @ range @ '', '' @ show_int full @ ''+('' @ show_int zoomed @ ''-'' @ show_int full
           @ '')*'' @ ss @ '', '')"

definition crop_expr_iter ::
  "int \<Rightarrow> int \<Rightarrow> string list \<times> string list \<times> string list \<times> string list \<Rightarrow> ZoomRegion
     \<Rightarrow> string list \<times> string list \<times> string list \<times> string list" where
  \<comment> \<open>One pass of the loop of \<^verbatim>\<open>buildCropExpressions\<close> on \<open>(wExprs, hExprs, xExprs, yExprs)\<close>.\<close>
  "crop_expr_iter w h st region =
     (case st of (wExprs, hExprs, xExprs, yExprs) \<Rightarrow>
        let scale = ZOOM_DEPTH_SCALES (depth region);
            f = clampFocus (focus region) (depth region);
            cropW = Math_round (of_int w / scale);
            cropH = Math_round (of_int h / scale);
            cropX = Math_round (cx f * of_int w - of_int cropW / 2);
            cropY = Math_round (cy f * of_int h - of_int cropH / 2);
            startSec' = (startMs region - TRANSITION_MS) / 1000;
            endSec' = (endMs region + TRANSITION_MS) / 1000;
            activeStart = startMs region / 1000;
            activeEnd = endMs region / 1000;
            transDur = TRANSITION_MS / 1000;
            piece = (\<lambda>full zoomed.
                       leadInExpr startSec' activeStart transDur full zoomed
                       @ activeExpr activeStart activeEnd zoomed
                       @ leadOutExpr activeEnd endSec' transDur full zoomed)
        in (wExprs @ [piece w cropW], hExprs @ [piece h cropH],
            xExprs @ [piece 0 cropX], yExprs @ [piece 0 cropY]))"

definition buildCropExpressions :: "ZoomRegion list \<Rightarrow> int \<Rightarrow> int \<Rightarrow> string \<times> string \<times> string \<times> string" where
  \<comment> \<open>the result is \<open>(w, h, x, y)\<close>\<close>
  "buildCropExpressions regions w h =
     (if length regions = 0 then (show_int w, show_int h, ''0'', ''0'')
      else
        let sorted = sort_key startMs regions
        in case foldl (crop_expr_iter w h) ([], [], [], []) sorted of
             (wExprs, hExprs, xExprs, yExprs) \<Rightarrow>
               let numExprs = length sorted * 3;
                   combine = (\<lambda>exprs defaultVal.
                                join [] exprs @ show_int defaultVal @ replicate numExprs (CHR '')''))
               in (combine wExprs w, combine hExprs h, combine xExprs 0, combine yExprs 0))"

definition generateZoomFilter :: "ZoomRegion list \<Rightarrow> int \<Rightarrow> int \<Rightarrow> real \<Rightarrow> string" where
  "generateZoomFilter regions inputWidth inputHeight fps =
     (if length regions = 0 then ''scale='' @ show_int inputWidth @ '':'' @ show_int inputHeight
      else case buildCropExpressions regions inputWidth inputHeight of
             (pw, ph, px, py) \<Rightarrow>
               ''crop=w='' @ pw @ '':h='' @ ph @ '':x='' @ px @ '':y='' @ py @ '',scale=''
               @ show_int inputWidth @ '':'' @ show_int inputHeight @ '':flags=lanczos'')"

section \<open>Pipeline (pipeline.ts)\<close>

record VideoInfo =
  width :: int
  height :: int
  durationMs :: real
  fps :: real

record ZoomConfig =
  regions :: "ZoomRegion list"
  transitionMs :: "real option"
  smoothing :: "real option"

record ProcessingConfig =
  inputPath :: string
  outputPath :: string
  video :: VideoInfo
  zoom :: "ZoomConfig option"
  crop :: "CropRegion option"
  trim :: "TrimRegion list option"
  background :: "BackgroundConfig option"
  annotations :: "AnnotationRegion list option"
  outputWidth :: "int option"
  outputHeight :: "int option"
  outputFps :: "real option"

record PipelineStep =
  description :: string
  args :: "string list"

definition lastIndexOf :: "string \<Rightarrow> char \<Rightarrow> int" where
  \<comment> \<open>\<^verbatim>\<open>s.lastIndexOf(c)\<close>: the last position of \<open>c\<close>, or -1\<close>
  "lastIndexOf s c =
     (case filter (\<lambda>i. s ! i = c) (rev [0 ..< length s]) of [] \<Rightarrow> - 1 | i # _ \<Rightarrow> int i)"

definition substring :: "string \<Rightarrow> int \<Rightarrow> int \<Rightarrow> string" where
  \<comment> \<open>\<^verbatim>\<open>s.substring(a, b)\<close>: both indices are clamped into the string, and swapped when
      the first is the larger\<close>
  "substring s a b =
     (let n = int (length s);
          a' = max 0 (min n a);
          b' = max 0 (min n b);
          lo = min a' b';
          hi = max a' b'
      in take (nat (hi - lo)) (drop (nat lo) s))"

definition intermediateOutput :: "string \<Rightarrow> nat \<Rightarrow> string" where
  "intermediateOutput finalPath stepIndex =
     (let ext = substring finalPath (lastIndexOf finalPath (CHR ''.'')) (int (length finalPath));
          base = substring finalPath 0 (lastIndexOf finalPath (CHR ''.''))
      in base @ ''_step'' @ show_nat stepIndex @ ext)"

definition needsTrim :: "ProcessingConfig \<Rightarrow> bool" where
  "needsTrim config = (case trim config of None \<Rightarrow> False | Some ts \<Rightarrow> length ts > 0)"

definition needsZoom :: "ProcessingConfig \<Rightarrow> bool" where
  "needsZoom config = (case zoom config of None \<Rightarrow> False | Some z \<Rightarrow> length (regions z) > 0)"

definition needsCrop :: "ProcessingConfig \<Rightarrow> bool" where
  "needsCrop config =
     (case crop config of
        None \<Rightarrow> False
      | Some c \<Rightarrow> crop_x c \<noteq> 0 \<or> crop_y c \<noteq> 0 \<or> crop_width c \<noteq> 1 \<or> crop_height c \<noteq> 1)"

definition needsBackground :: "ProcessingConfig \<Rightarrow> bool" where
  "needsBackground config =
     (case background config of None \<Rightarrow> False | Some b \<Rightarrow> or_else (padding b) 0 > 0)"

definition needsAnnotations :: "ProcessingConfig \<Rightarrow> bool" where
  "needsAnnotations config = (case annotations config of None \<Rightarrow> False | Some as \<Rightarrow> length as > 0)"

definition encode_args :: "string list" where
  \<comment> \<open>\<^verbatim>\<open>'-c:v', 'libx264', '-preset', 'fast', '-crf', '18'\<close>\<close>
  "encode_args = [''-c:v'', ''libx264'', ''-preset'', ''fast'', ''-crf'', ''18'']"

definition trim_stage ::
  "(real \<Rightarrow> string) \<Rightarrow> ProcessingConfig \<Rightarrow> PipelineStep list + PipelineStep list \<times> string \<times> nat" where
  \<comment> \<open>Step 1 of \<^verbatim>\<open>buildPipeline\<close>. \<open>Inl steps\<close> is the early \<^verbatim>\<open>return steps\<close>;
      \<open>Inr (steps, currentInput, stepIndex)\<close> is the state the function goes on with.
      \<open>the (trim config)\<close> is \<^verbatim>\<open>config.trim!\<close>, read under \<open>needsTrim\<close> only.\<close>
  "trim_stage numStr config =
     (let currentInput = inputPath config;
          stepIndex = 0
      in if needsTrim config then
           let segments = computeKeptSegments (the (trim config)) (durationMs (video config));
               trimOutput = (if length segments > 1
                             then intermediateOutput (outputPath config) stepIndex
                             else outputPath config);
               stepIndex1 = (if length segments > 1 then stepIndex + 1 else stepIndex);
               isOnlyStep = (\<not> needsZoom config \<and> \<not> needsCrop config
                             \<and> \<not> needsBackground config \<and> \<not> needsAnnotations config)
           in if length segments = 1 \<and> isOnlyStep then
                let seg = segments ! 0
                in Inl [\<lparr> description = ''Trim video'',
                          args = [''ffmpeg'', ''-y'',
                                  ''-ss'', toFixed3 (startSec seg),
                                  ''-to'', toFixed3 (endSec seg),
                                  ''-i'', currentInput]
                                 @ encode_args @ [''-c:a'', ''aac'', outputPath config] \<rparr>]
              else if length segments > 1 then
                let filter' = generateTrimFilter numStr (the (trim config)) (durationMs (video config)) True
                in Inr ([\<lparr> description = ''Trim video (remove cut sections)'',
                           args = [''ffmpeg'', ''-y'',
                                   ''-i'', currentInput,
                                   ''-filter_complex'', filter',
                                   ''-map'', ''[outv]'', ''-map'', ''[outa]'']
                                  @ encode_args @ [''-c:a'', ''aac'', trimOutput] \<rparr>],
                        trimOutput, stepIndex1)
              else Inr ([], currentInput, stepIndex1)
         else Inr ([], currentInput, stepIndex))"

definition vf_parts :: "(real \<Rightarrow> string) \<Rightarrow> ProcessingConfig \<Rightarrow> string list" where
  \<comment> \<open>Step 2 of \<^verbatim>\<open>buildPipeline\<close>: the list \<^verbatim>\<open>vfParts\<close>.\<close>
  "vf_parts numStr config =
     (let v = video config;
          parts1 = (if needsCrop config
                    then [generateCropFilter (the (crop config)) (width v) (height v)]
                    else []);
          parts2 = (if needsZoom config
                    then parts1 @ [generateZoomFilter (regions (the (zoom config))) (width v) (height v) (fps v)]
                    else parts1)
      in if needsAnnotations config then
           let annFilter = generateAnnotationFilters numStr (the (annotations config))
                             (or_else (outputWidth config) (width v))
                             (or_else (outputHeight config) (height v))
           in if annFilter \<noteq> [] then parts2 @ [annFilter] else parts2
         else parts2)"

definition effects_stage ::
  "(real \<Rightarrow> string) \<Rightarrow> ProcessingConfig \<Rightarrow> PipelineStep list \<times> string \<times> nat \<Rightarrow> PipelineStep list" where
  \<comment> \<open>Steps 2 and 3 of \<^verbatim>\<open>buildPipeline\<close>, from the state \<open>(steps, currentInput, stepIndex)\<close>.\<close>
  "effects_stage numStr config st =
     (case st of (steps, currentInput, stepIndex) \<Rightarrow>
        let v = video config;
            vfParts = vf_parts numStr config
        in if needsBackground config then
             let bgFilter = generateBackgroundFilter numStr (the (background config))
                              (or_else (outputWidth config) (width v))
                              (or_else (outputHeight config) (height v));
                 vfOutput = intermediateOutput (outputPath config) stepIndex;
                 steps1 = (if length vfParts > 0
                           then steps @
                             [\<lparr> description = ''Apply zoom/crop/annotations'',
                                args = [''ffmpeg'', ''-y'',
                                        ''-i'', currentInput,
                                        ''-vf'', join '','' vfParts]
                                       @ encode_args @ [''-c:a'', ''copy'', vfOutput] \<rparr>]
                           else steps);
                 currentInput1 = (if length vfParts > 0 then vfOutput else currentInput);
                 bgArgs = [''ffmpeg'', ''-y'', ''-i'', currentInput1];
                 bgArgs1 = (case imagePath (the (background config)) of
                              None \<Rightarrow> bgArgs
                            | Some p \<Rightarrow>
                                if bg_type (the (background config)) = BgImage \<and> p \<noteq> []
                                then bgArgs @ [''-i'', p] else bgArgs);
                 bgArgs2 = bgArgs1 @ [''-filter_complex'', bgFilter] @ encode_args
                             @ [''-c:a'', ''copy'', outputPath config]
             in steps1 @ [\<lparr> description = ''Apply background/wallpaper'', args = bgArgs2 \<rparr>]
           else if length vfParts > 0 then
             steps @
               [\<lparr> description = ''Apply video effects (zoom/crop/annotations)'',
                  args = [''ffmpeg'', ''-y'',
                          ''-i'', currentInput,
                          ''-vf'', join '','' vfParts]
                         @ encode_args @ [''-c:a'', ''copy'', outputPath config] \<rparr>]
           else if length steps = 0 then
             steps @
               [\<lparr> description = ''Copy (no effects)'',
                  args = [''ffmpeg'', ''-y'', ''-i'', currentInput, ''-c'', ''copy'', outputPath config] \<rparr>]
           else steps)"

definition buildPipeline :: "(real \<Rightarrow> string) \<Rightarrow> ProcessingConfig \<Rightarrow> PipelineStep list" where
  "buildPipeline numStr config =
     (case trim_stage numStr config of
        Inl steps \<Rightarrow> steps
      | Inr st \<Rightarrow> effects_stage numStr config st)"

section \<open>The cursor walk, as the specification words it\<close>

text \<open>
  With a cursor, for each cut region in turn: a kept segment from the cursor to the cut's
  start if the cursor precedes it, then the cursor moves to the cut's end; after all cuts,
  a trailing segment if the cursor precedes the total duration. Times are in seconds.
\<close>

fun cursor_walk :: "real \<Rightarrow> TrimRegion list \<Rightarrow> real \<Rightarrow> Segment list" where
  "cursor_walk cursor [] totalSec =
     (if cursor < totalSec then [\<lparr> startSec = cursor, endSec = totalSec \<rparr>] else [])"
| "cursor_walk cursor (tr # trs) totalSec =
     (if cursor < startMs tr / 1000 then [\<lparr> startSec = cursor, endSec = startMs tr / 1000 \<rparr>] else [])
     @ cursor_walk (endMs tr / 1000) trs totalSec"

definition kept_segments_walk :: "TrimRegion list \<Rightarrow> real \<Rightarrow> Segment list" where
  \<comment> \<open>cut regions sorted by start, the cursor starting at 0\<close>
  "kept_segments_walk trimRegions totalDurationMs =
     cursor_walk 0 (sort_key startMs trimRegions) (totalDurationMs / 1000)"

section \<open>Vocabulary of the properties\<close>

text \<open>
  The definitions of this section are not code of the repository: they name what the
  properties below speak about.
\<close>

definition tick_count :: "real \<Rightarrow> real \<Rightarrow> real \<Rightarrow> nat" where
  \<comment> \<open>how many of the ticks \<open>t, t + iv, t + 2 * iv, ...\<close> are at most \<open>dur\<close>, for \<open>iv > 0\<close>\<close>
  "tick_count t dur iv = (if t \<le> dur then nat \<lfloor>(dur - t) / iv\<rfloor> + 1 else 0)"

definition blends_by_scale :: "ZoomRegion list \<Rightarrow> ZoomKeyframe \<Rightarrow> bool" where
  \<comment> \<open>The keyframe carries the full frame when no region is dominant at its time; otherwise
      its crop size is the reciprocal of the scale blended linearly from 1 to the region's
      scale by the strength, and its centre is blended linearly from 0.5 to the clamped focus.\<close>
  "blends_by_scale regs k =
     (case findDominantRegion regs (timeMs k) of
        (None, s) \<Rightarrow> cropWidth k = 1 \<and> cropHeight k = 1 \<and> centerX k = 0.5 \<and> centerY k = 0.5
      | (Some r, s) \<Rightarrow>
          cropWidth k = 1 / (1 + (ZOOM_DEPTH_SCALES (depth r) - 1) * s)
          \<and> cropHeight k = 1 / (1 + (ZOOM_DEPTH_SCALES (depth r) - 1) * s)
          \<and> centerX k = 0.5 + (cx (clampFocus (focus r) (depth r)) - 0.5) * s
          \<and> centerY k = 0.5 + (cy (clampFocus (focus r) (depth r)) - 0.5) * s)"

fun arg_after :: "string \<Rightarrow> string list \<Rightarrow> string option" where
  "arg_after k (a # b # rest) = (if a = k then Some b else arg_after k (b # rest))"
| "arg_after k _ = None"

definition step_input :: "PipelineStep \<Rightarrow> string option" where
  \<comment> \<open>the file a step reads: the argument after the first \<^verbatim>\<open>-i\<close>\<close>
  "step_input s = arg_after ''-i'' (args s)"

definition step_output :: "PipelineStep \<Rightarrow> string option" where
  \<comment> \<open>the file a step writes: its last argument\<close>
  "step_output s = (if args s = [] then None else Some (last (args s)))"

fun chained :: "PipelineStep list \<Rightarrow> bool" where
  \<comment> \<open>every step but the first reads the file written by the step just before it\<close>
  "chained (a # b # rest) = (step_input b = step_output a \<and> chained (b # rest))"
| "chained _ = True"

definition has_background_label :: "PipelineStep \<Rightarrow> bool" where
  "has_background_label s = (description s = ''Apply background/wallpaper'')"

definition is_trim_step :: "PipelineStep \<Rightarrow> bool" where
  "is_trim_step s =
     (description s = ''Trim video'' \<or> description s = ''Trim video (remove cut sections)'')"

definition copy_step :: "string \<Rightarrow> string \<Rightarrow> PipelineStep" where
  \<comment> \<open>the stream-copy invocation from \<open>src\<close> to \<open>dst\<close>\<close>
  "copy_step src dst =
     \<lparr> description = ''Copy (no effects)'',
       args = [''ffmpeg'', ''-y'', ''-i'', src, ''-c'', ''copy'', dst] \<rparr>"

definition seek_trim_step :: "ProcessingConfig \<Rightarrow> Segment \<Rightarrow> PipelineStep" where
  \<comment> \<open>the seek-based extraction of one segment, written to the output path\<close>
  "seek_trim_step config seg =
     \<lparr> description = ''Trim video'',
       args = [''ffmpeg'', ''-y'', ''-ss'', toFixed3 (startSec seg), ''-to'', toFixed3 (endSec seg),
               ''-i'', inputPath config,
               ''-c:v'', ''libx264'', ''-preset'', ''fast'', ''-crf'', ''18'',
               ''-c:a'', ''aac'', outputPath config] \<rparr>"

definition concat_trim_step :: "(real \<Rightarrow> string) \<Rightarrow> ProcessingConfig \<Rightarrow> PipelineStep" where
  \<comment> \<open>the concat-based trim, written to the first intermediate path\<close>
  "concat_trim_step numStr config =
     \<lparr> description = ''Trim video (remove cut sections)'',
       args = [''ffmpeg'', ''-y'', ''-i'', inputPath config,
               ''-filter_complex'',
               generateTrimFilter numStr (the (trim config)) (durationMs (video config)) True,
               ''-map'', ''[outv]'', ''-map'', ''[outa]'',
               ''-c:v'', ''libx264'', ''-preset'', ''fast'', ''-crf'', ''18'',
               ''-c:a'', ''aac'', intermediateOutput (outputPath config) 0] \<rparr>"

definition filter_pass_step :: "string \<Rightarrow> string \<Rightarrow> string list \<Rightarrow> string \<Rightarrow> PipelineStep" where
  \<comment> \<open>the pass that runs the filters \<open>parts\<close> with \<^verbatim>\<open>-vf\<close>, reading \<open>src\<close> and writing \<open>dst\<close>\<close>
  "filter_pass_step desc src parts dst =
     \<lparr> description = desc,
       args = [''ffmpeg'', ''-y'', ''-i'', src, ''-vf'', join '','' parts,
               ''-c:v'', ''libx264'', ''-preset'', ''fast'', ''-crf'', ''18'',
               ''-c:a'', ''copy'', dst] \<rparr>"

definition background_step ::
  "(real \<Rightarrow> string) \<Rightarrow> ProcessingConfig \<Rightarrow> BackgroundConfig \<Rightarrow> string \<Rightarrow> PipelineStep" where
  \<comment> \<open>the background composite of \<open>b\<close>: it reads \<open>src\<close> (and the background image, for an
      image background with a path), runs the filter graph of \<open>generateBackgroundFilter\<close> with
      \<^verbatim>\<open>-filter_complex\<close>, and writes the output path\<close>
  "background_step numStr config b src =
     \<lparr> description = ''Apply background/wallpaper'',
       args = [''ffmpeg'', ''-y'', ''-i'', src]
              @ (case imagePath b of
                   None \<Rightarrow> []
                 | Some p \<Rightarrow> if bg_type b = BgImage \<and> p \<noteq> [] then [''-i'', p] else [])
              @ [''-filter_complex'',
                 generateBackgroundFilter numStr b
                   (or_else (outputWidth config) (width (video config)))
                   (or_else (outputHeight config) (height (video config))),
                 ''-c:v'', ''libx264'', ''-preset'', ''fast'', ''-crf'', ''18'',
                 ''-c:a'', ''copy'', outputPath config] \<rparr>"

definition is_background_step :: "(real \<Rightarrow> string) \<Rightarrow> ProcessingConfig \<Rightarrow> PipelineStep \<Rightarrow> bool" where
  \<comment> \<open>\<open>s\<close> is the background composite of the configuration's background, on the input it names\<close>
  "is_background_step numStr config s =
     (case background config of
        None \<Rightarrow> False
      | Some b \<Rightarrow>
          (case step_input s of
             None \<Rightarrow> False
           | Some src \<Rightarrow> s = background_step numStr config b src))"

fun no_gap :: "real \<Rightarrow> TrimRegion list \<Rightarrow> real \<Rightarrow> bool" where
  \<comment> \<open>from the cursor on, each region begins at or before the cursor, which then moves to the
      region's end; the last end reaches the total (all in milliseconds)\<close>
  "no_gap cursor [] totalMs = (totalMs \<le> cursor)"
| "no_gap cursor (tr # trs) totalMs = (startMs tr \<le> cursor \<and> no_gap (endMs tr) trs totalMs)"

definition covers_in_start_order :: "TrimRegion list \<Rightarrow> real \<Rightarrow> bool" where
  \<comment> \<open>the regions, sorted by start, cover the clip from 0 link by link\<close>
  "covers_in_start_order rs d = (rs \<noteq> [] \<and> no_gap 0 (sort_key startMs rs) d)"

definition print_integral :: "real \<Rightarrow> string" where
  \<comment> \<open>a number printer for the concrete examples, whose printed numbers are integers\<close>
  "print_integral v = show_int \<lfloor>v\<rfloor>"

definition example_region :: ZoomRegion where
  "example_region =
     \<lparr> region_id = ''z1'', startMs = 1000, endMs = 3000, depth = Depth3,
       focus = \<lparr> cx = 0.5, cy = 0.06 \<rparr> \<rparr>"

definition example_plain :: ProcessingConfig where
  \<comment> \<open>a 1920 by 1080 clip of 60 s with every effect absent\<close>
  "example_plain =
     \<lparr> inputPath = ''in.mp4'', outputPath = ''out.mp4'',
       video = \<lparr> width = 1920, height = 1080, durationMs = 60000, fps = 30 \<rparr>,
       zoom = None, crop = None, trim = None, background = None, annotations = None,
       outputWidth = None, outputHeight = None, outputFps = None \<rparr>"

definition example_rounded_only :: BackgroundConfig where
  \<comment> \<open>a background with padding 0 and a positive border radius\<close>
  "example_rounded_only =
     \<lparr> bg_type = BgColor, color = Some ''#1a1a2e'', gradient = None, imagePath = None,
       blurRadius = None, padding = Some 0, borderRadius = Some 12 \<rparr>"

definition example_disabled :: ProcessingConfig where
  \<comment> \<open>every effect present but disabled\<close>
  "example_disabled =
     example_plain
       \<lparr> zoom := Some \<lparr> regions = [], transitionMs = None, smoothing = None \<rparr>,
         crop := Some \<lparr> crop_x = 0, crop_y = 0, crop_width = 1, crop_height = 1 \<rparr>,
         trim := Some [],
         background := Some example_rounded_only,
         annotations := Some [] \<rparr>"

definition example_seek :: ProcessingConfig where
  \<comment> \<open>only the first five seconds are cut\<close>
  "example_seek =
     example_plain \<lparr> trim := Some [\<lparr> region_id = ''t1'', startMs = 0, endMs = 5000 \<rparr>] \<rparr>"

definition example_nested_cover :: ProcessingConfig where
  \<comment> \<open>the whole clip is cut, and a part of it is cut once more\<close>
  "example_nested_cover =
     example_plain \<lparr> trim := Some [\<lparr> region_id = ''a'', startMs = 0, endMs = 60000 \<rparr>,
                                   \<lparr> region_id = ''b'', startMs = 10000, endMs = 20000 \<rparr>] \<rparr>"

definition example_padded :: BackgroundConfig where
  \<comment> \<open>a colour background with padding 10\<close>
  "example_padded =
     \<lparr> bg_type = BgColor, color = Some ''#1a1a2e'', gradient = None, imagePath = None,
       blurRadius = None, padding = Some 10, borderRadius = None \<rparr>"

definition example_three_pass :: ProcessingConfig where
  \<comment> \<open>a cut in the middle, a crop and a padded background\<close>
  "example_three_pass =
     example_plain
       \<lparr> crop := Some \<lparr> crop_x = 0, crop_y = 0.05, crop_width = 1, crop_height = 0.95 \<rparr>,
         trim := Some [\<lparr> region_id = ''t1'', startMs = 5000, endMs = 10000 \<rparr>],
         background := Some example_padded \<rparr>"

section \<open>Properties\<close>

subsection \<open>Printing and rounding\<close>

lemmas show_eval = show_int_def show_nat.simps digit_char_def

lemma even_even_down: "even (even_down w)"
  by (auto simp: even_down_def js_rem_def sgn_if split: if_splits)

subsection \<open>Zoom strength\<close>

lemma smoothStep_ge_1: "1 \<le> t \<Longrightarrow> smoothStep t = 1"
  by (simp add: smoothStep_def)

text \<open>Over exact reals the envelope is exact.\<close>

lemma computeRegionStrength_real_envelope:
  "(t < startMs r - 320 \<or> endMs r + 320 < t \<longrightarrow> computeRegionStrength r t = 0)
   \<and> (startMs r \<le> t \<and> t \<le> endMs r \<longrightarrow> computeRegionStrength r t = 1)"
proof (intro conjI impI)
  assume "t < startMs r - 320 \<or> endMs r + 320 < t"
  then show "computeRegionStrength r t = 0"
    by (auto simp: computeRegionStrength_def TRANSITION_MS_def)
next
  assume inside: "startMs r \<le> t \<and> t \<le> endMs r"
  then have "1 \<le> (t - (startMs r - 320)) / 320" and "1 \<le> (endMs r + 320 - t) / 320"
    by simp_all
  then have "smoothStep ((t - (startMs r - 320)) / 320) = 1"
    and "smoothStep ((endMs r + 320 - t) / 320) = 1"
    by (simp_all only: smoothStep_ge_1)
  with inside show "computeRegionStrength r t = 1"
    by (simp add: computeRegionStrength_def TRANSITION_MS_def)
qed

subsection \<open>Binary64 rounding\<close>

lemma powi_nonneg: "0 \<le> (b::int) \<Longrightarrow> (2::real) powi b = 2 ^ nat b"
  by (simp add: power_int_def)

lemma powi_neg: "0 \<le> (b::int) \<Longrightarrow> (2::real) powi (- b) = 1 / 2 ^ nat b"
  by (simp only: power_int_minus powi_nonneg inverse_eq_divide)

lemma binade_bounds:
  assumes "x \<noteq> 0"
  shows "2 powi binade x \<le> \<bar>x\<bar>" and "\<bar>x\<bar> < 2 powi (binade x + 1)"
proof -
  have "2 powi binade x \<le> \<bar>x\<bar> \<and> \<bar>x\<bar> < 2 powi (binade x + 1)"
  proof (cases "1 \<le> \<bar>x\<bar>")
    case True
    define n where "n = \<lfloor>\<bar>x\<bar>\<rfloor>"
    have n: "0 < n" using True unfolding n_def by linarith
    have b: "1 \<le> bitlen n" using n by (simp add: bitlen_alt_def)
    from bitlen_bounds [OF n] have lo: "2 ^ nat (bitlen n - 1) \<le> n" and hi: "n < 2 ^ nat (bitlen n)"
      by simp_all
    have "real_of_int (2 ^ nat (bitlen n - 1)) \<le> real_of_int n" using lo by (simp only: of_int_le_iff)
    then have "(2::real) ^ nat (bitlen n - 1) \<le> real_of_int n" by simp
    moreover have "real_of_int n \<le> \<bar>x\<bar>" unfolding n_def by linarith
    ultimately have "(2::real) ^ nat (bitlen n - 1) \<le> \<bar>x\<bar>" by linarith
    then have 1: "2 powi (bitlen n - 1) \<le> \<bar>x\<bar>" using b by (simp add: powi_nonneg)
    have "n + 1 \<le> 2 ^ nat (bitlen n)" using hi by simp
    then have "real_of_int (n + 1) \<le> real_of_int (2 ^ nat (bitlen n))" by (simp only: of_int_le_iff)
    then have "real_of_int n + 1 \<le> 2 ^ nat (bitlen n)" by simp
    moreover have "\<bar>x\<bar> < real_of_int n + 1" unfolding n_def by linarith
    ultimately have "\<bar>x\<bar> < 2 ^ nat (bitlen n)" by linarith
    then have 2: "\<bar>x\<bar> < 2 powi (bitlen n)" using b by (simp add: powi_nonneg)
    from 1 2 True show ?thesis by (simp add: binade_def n_def)
  next
    case False
    define y where "y = 1 / \<bar>x\<bar>"
    have x: "0 < \<bar>x\<bar>" using assms by simp
    have xy: "\<bar>x\<bar> = 1 / y" by (simp add: y_def)
    have y: "1 < y" using False x by (simp add: y_def)
    define n where "n = \<lceil>y\<rceil> - 1"
    have n: "0 < n" using y unfolding n_def by linarith
    have b: "1 \<le> bitlen n" using n by (simp add: bitlen_alt_def)
    from bitlen_bounds [OF n] have lo: "2 ^ nat (bitlen n - 1) \<le> n" and hi: "n < 2 ^ nat (bitlen n)"
      by simp_all
    have ny: "real_of_int n < y" and yn: "y \<le> real_of_int n + 1"
      unfolding n_def by linarith+
    have "n + 1 \<le> 2 ^ nat (bitlen n)" using hi by simp
    then have "real_of_int (n + 1) \<le> real_of_int (2 ^ nat (bitlen n))" by (simp only: of_int_le_iff)
    then have "real_of_int n + 1 \<le> 2 ^ nat (bitlen n)" by simp
    with yn have "y \<le> 2 ^ nat (bitlen n)" by linarith
    then have "1 / 2 ^ nat (bitlen n) \<le> 1 / y" using y by (intro divide_left_mono) simp_all
    then have 1: "2 powi (- bitlen n) \<le> \<bar>x\<bar>"
      using b by (simp only: xy powi_neg [of "bitlen n"]) 
    have "real_of_int (2 ^ nat (bitlen n - 1)) \<le> real_of_int n" using lo by (simp only: of_int_le_iff)
    then have "(2::real) ^ nat (bitlen n - 1) \<le> real_of_int n" by simp
    with ny have "2 ^ nat (bitlen n - 1) < y" by linarith
    then have "1 / y < 1 / 2 ^ nat (bitlen n - 1)"
      using y by (intro divide_strict_left_mono) (simp_all add: mult_pos_pos)
    moreover have "(2::real) powi (- bitlen n + 1) = 1 / 2 ^ nat (bitlen n - 1)"
      using b powi_neg [of "bitlen n - 1"] by simp
    ultimately have 2: "\<bar>x\<bar> < 2 powi (- bitlen n + 1)" by (simp only: xy)
    from 1 2 False show ?thesis by (simp add: binade_def n_def y_def)
  qed
  then show "2 powi binade x \<le> \<bar>x\<bar>" and "\<bar>x\<bar> < 2 powi (binade x + 1)" by simp_all
qed

lemma binade_ge:
  assumes "x \<noteq> 0" and "2 powi k \<le> \<bar>x\<bar>"
  shows "k \<le> binade x"
proof (rule ccontr)
  assume "\<not> k \<le> binade x"
  then have "binade x + 1 \<le> k" by simp
  then have "(2::real) powi (binade x + 1) \<le> 2 powi k" by (intro power_int_increasing) simp_all
  with binade_bounds(2) [OF assms(1)] assms(2) show False by simp
qed

lemma binade_le:
  assumes "x \<noteq> 0" and "\<bar>x\<bar> < 2 powi (k + 1)"
  shows "binade x \<le> k"
proof (rule ccontr)
  assume "\<not> binade x \<le> k"
  then have "k + 1 \<le> binade x" by simp
  then have "(2::real) powi (k + 1) \<le> 2 powi binade x" by (intro power_int_increasing) simp_all
  with binade_bounds(1) [OF assms(1)] assms(2) show False by simp
qed

lemma round_half_even_ge: "of_int m \<le> v \<Longrightarrow> m \<le> round_half_even v"
proof -
  assume "of_int m \<le> v"
  then have "m \<le> \<lfloor>v\<rfloor>" by (simp add: le_floor_iff)
  then show ?thesis by (simp add: round_half_even_def Let_def)
qed

lemma round_half_even_of_int: "round_half_even (of_int m) = m"
  by (simp add: round_half_even_def)

lemma fl64_ge_grid:
  assumes "x \<noteq> 0" and "y = of_int m * 2 powi (max (binade x) (- 1022) - 52)" and "y \<le> x"
  shows "y \<le> fl64 x"
proof -
  define q :: real where "q = 2 powi (max (binade x) (- 1022) - 52)"
  have q: "0 < q" by (simp add: q_def)
  have "of_int m \<le> x / q" using assms(2,3) q by (simp add: q_def [symmetric] pos_le_divide_eq)
  then have "m \<le> round_half_even (x / q)" by (rule round_half_even_ge)
  then have "of_int m * q \<le> of_int (round_half_even (x / q)) * q"
    using q by (simp add: mult_right_mono)
  then show ?thesis using assms(1,2) by (simp add: fl64_def q_def Let_def)
qed

lemma fl64_ge_binade:
  assumes "0 < x" and "- 1022 \<le> binade x"
  shows "2 powi binade x \<le> fl64 x"
proof -
  have x: "x \<noteq> 0" using assms by simp
  have b: "2 powi binade x \<le> x" using binade_bounds(1) [OF x] assms by simp
  have "(2::real) powi (52 + (binade x - 52)) = 2 powi 52 * 2 powi (binade x - 52)"
    by (rule power_int_add) simp
  then have "(2::real) powi binade x = of_int (2 ^ 52) * 2 powi (max (binade x) (- 1022) - 52)"
    using assms(2) by (simp add: max_def)
  from fl64_ge_grid [OF x this b] show ?thesis .
qed

lemma fl64_ge_1:
  assumes "1 \<le> x"
  shows "1 \<le> fl64 x"
proof -
  have x: "x \<noteq> 0" "0 < x" using assms by simp_all
  have "2 powi 0 \<le> \<bar>x\<bar>" using assms by simp
  from binade_ge [OF x(1) this] have b: "0 \<le> binade x" .
  then have "(2::real) powi 0 \<le> 2 powi binade x" by (intro power_int_increasing) simp_all
  moreover have "2 powi binade x \<le> fl64 x" using b by (intro fl64_ge_binade x) simp
  ultimately show ?thesis by simp
qed

lemma fl64_ge_320:
  assumes "320 \<le> x"
  shows "320 \<le> fl64 x"
proof -
  have x: "x \<noteq> 0" "0 < x" using assms by simp_all
  have "2 powi 8 \<le> \<bar>x\<bar>" using assms by simp
  from binade_ge [OF x(1) this] have b: "8 \<le> binade x" .
  show ?thesis
  proof (cases "binade x = 8")
    case True
    have "(320::real) = of_int (320 * 2 ^ 44) * 2 powi (max (binade x) (- 1022) - 52)"
      by (simp add: True)
    from fl64_ge_grid [OF x(1) this assms] show ?thesis .
  next
    case False
    with b have "9 \<le> binade x" by simp
    then have "(2::real) powi 9 \<le> 2 powi binade x" by (intro power_int_increasing) simp_all
    moreover have "2 powi binade x \<le> fl64 x" using b by (intro fl64_ge_binade x) simp
    ultimately show ?thesis by simp
  qed
qed

lemma fl64_of_int:
  assumes "\<bar>n\<bar> < 2 ^ 53"
  shows "fl64 (of_int n) = of_int n"
proof (cases "n = 0")
  case True
  then show ?thesis by (simp add: fl64_def)
next
  case False
  define x :: real where "x = of_int n"
  have x: "x \<noteq> 0" using False by (simp add: x_def)
  have "1 \<le> \<bar>n\<bar>" using False by simp
  then have "1 \<le> \<bar>x\<bar>" unfolding x_def by (metis of_int_1_le_iff of_int_abs)
  then have "2 powi 0 \<le> \<bar>x\<bar>" by simp
  from binade_ge [OF x this] have lo: "0 \<le> binade x" .
  have "\<bar>x\<bar> < 2 ^ 53" using assms unfolding x_def by (metis of_int_abs of_int_less_numeral_power_cancel_iff)
  then have "\<bar>x\<bar> < 2 powi (52 + 1)" by simp
  from binade_le [OF x this] have hi: "binade x \<le> 52" .
  define k where "k = nat (52 - binade x)"
  have "(2::real) powi (- (52 - binade x)) = 1 / 2 ^ k"
    unfolding k_def using hi by (intro powi_neg) simp
  then have q: "(2::real) powi (max (binade x) (- 1022) - 52) = 1 / 2 ^ k"
    using lo by (simp add: max_def)
  have "x / (1 / 2 ^ k) = of_int (n * 2 ^ k)" by (simp add: x_def)
  then have "round_half_even (x / (1 / 2 ^ k)) = n * 2 ^ k"
    by (simp only: round_half_even_of_int)
  then have "fl64 x = of_int (n * 2 ^ k) * (1 / 2 ^ k)"
    using x by (simp add: fl64_def q Let_def)
  then show ?thesis by (simp add: x_def)
qed

lemma fl64_1: "fl64 1 = 1" using fl64_of_int [of 1] by simp
lemma fl64_2: "fl64 2 = 2" using fl64_of_int [of 2] by simp

lemma smoothStep_b64_ge_1: "1 \<le> t \<Longrightarrow> smoothStep_b64 t = 1"
  by (simp add: smoothStep_b64_def fl64_1 fl64_2)

lemma round_half_even_le: "v \<le> of_int m \<Longrightarrow> round_half_even v \<le> m"
proof -
  assume v: "v \<le> of_int m"
  show ?thesis
  proof (cases "v = of_int m")
    case True
    then show ?thesis by (simp add: round_half_even_of_int)
  next
    case False
    with v have "v < of_int m" by simp
    then have "\<lfloor>v\<rfloor> < m" by (simp add: floor_less_iff)
    then show ?thesis by (simp add: round_half_even_def Let_def)
  qed
qed

lemma round_half_even_mono: "v \<le> w \<Longrightarrow> round_half_even v \<le> round_half_even w"
proof -
  assume vw: "v \<le> w"
  then have fl: "\<lfloor>v\<rfloor> \<le> \<lfloor>w\<rfloor>" by (rule floor_mono)
  show ?thesis
  proof (cases "\<lfloor>v\<rfloor> = \<lfloor>w\<rfloor>")
    case True
    then show ?thesis using vw by (auto simp: round_half_even_def Let_def)
  next
    case False
    with fl have "\<lfloor>v\<rfloor> + 1 \<le> \<lfloor>w\<rfloor>" by simp
    moreover have "round_half_even v \<le> \<lfloor>v\<rfloor> + 1" by (simp add: round_half_even_def Let_def)
    moreover have "\<lfloor>w\<rfloor> \<le> round_half_even w" by (simp add: round_half_even_def Let_def)
    ultimately show ?thesis by linarith
  qed
qed

lemma round_half_even_minus: "round_half_even (- v) = - round_half_even v"
proof (cases "v = of_int \<lfloor>v\<rfloor>")
  case True
  then obtain m where "v = of_int m" ..
  then show ?thesis
    using round_half_even_of_int [of m] round_half_even_of_int [of "- m"] by simp
next
  case False
  moreover have "of_int \<lfloor>v\<rfloor> \<le> v" by simp
  ultimately have lt: "of_int \<lfloor>v\<rfloor> < v" by linarith
  have "\<lfloor>- v\<rfloor> = - \<lfloor>v\<rfloor> - 1"
  proof (rule floor_unique)
    show "of_int (- \<lfloor>v\<rfloor> - 1) \<le> - v" by simp linarith
    show "- v < of_int (- \<lfloor>v\<rfloor> - 1) + 1" using lt by simp
  qed
  then show ?thesis
    by (auto simp: round_half_even_def Let_def)
qed

lemma binade_minus: "binade (- x) = binade x"
  by (simp add: binade_def)

lemma fl64_minus: "fl64 (- x) = - fl64 x"
  by (simp add: fl64_def binade_minus round_half_even_minus Let_def)

lemma fl64_0: "fl64 0 = 0"
  by (simp add: fl64_def)

lemma fl64_nonneg: "0 \<le> x \<Longrightarrow> 0 \<le> fl64 x"
proof -
  assume "0 \<le> x"
  show ?thesis
  proof (cases "x = 0")
    case True
    then show ?thesis by (simp add: fl64_0)
  next
    case False
    have "(0::real) = of_int 0 * 2 powi (max (binade x) (- 1022) - 52)" by simp
    from fl64_ge_grid [OF False this \<open>0 \<le> x\<close>] show ?thesis .
  qed
qed

lemma fl64_le_next_binade:
  assumes "0 < x"
  shows "fl64 x \<le> 2 powi (max (binade x) (- 1022) + 1)"
proof -
  define e where "e = max (binade x) (- 1022)"
  define q :: real where "q = 2 powi (e - 52)"
  have x: "x \<noteq> 0" using assms by simp
  have q: "0 < q" by (simp add: q_def)
  have "(2::real) powi (53 + (e - 52)) = 2 powi 53 * 2 powi (e - 52)"
    by (rule power_int_add) simp
  then have split: "(2::real) powi (e + 1) = 2 powi 53 * q"
    unfolding q_def by (simp add: add.commute)
  have "x < 2 powi (binade x + 1)" using binade_bounds(2) [OF x] assms by simp
  also have "\<dots> \<le> 2 powi (e + 1)" by (intro power_int_increasing) (simp_all add: e_def)
  finally have "x / q \<le> of_int (2 ^ 53)" using q split by (simp add: pos_divide_le_eq)
  then have "round_half_even (x / q) \<le> 2 ^ 53" by (rule round_half_even_le)
  then have "of_int (round_half_even (x / q)) * q \<le> of_int (2 ^ 53) * q"
    using q by (simp only: of_int_le_iff mult_le_cancel_right_pos)
  then show ?thesis using x split by (simp add: fl64_def q_def e_def Let_def)
qed

lemma binade_mono:
  assumes "0 < x" and "x \<le> y"
  shows "binade x \<le> binade y"
proof -
  have x: "x \<noteq> 0" and y: "y \<noteq> 0" using assms by simp_all
  have "2 powi binade x \<le> \<bar>x\<bar>" by (rule binade_bounds(1) [OF x])
  also have "\<bar>x\<bar> \<le> \<bar>y\<bar>" using assms by simp
  finally show ?thesis by (rule binade_ge [OF y])
qed

lemma fl64_mono_pos:
  assumes "0 < x" and "x \<le> y"
  shows "fl64 x \<le> fl64 y"
proof -
  have x: "x \<noteq> 0" and y: "y \<noteq> 0" "0 < y" using assms by simp_all
  define ex where "ex = max (binade x) (- 1022)"
  define ey where "ey = max (binade y) (- 1022)"
  have le: "ex \<le> ey" using binade_mono [OF assms] by (simp add: ex_def ey_def)
  show ?thesis
  proof (cases "ex = ey")
    case True
    define q :: real where "q = 2 powi (ex - 52)"
    have q: "0 < q" by (simp add: q_def)
    have "x / q \<le> y / q" using assms q by (simp add: divide_right_mono)
    then have "round_half_even (x / q) \<le> round_half_even (y / q)" by (rule round_half_even_mono)
    then have "of_int (round_half_even (x / q)) * q \<le> of_int (round_half_even (y / q)) * q"
      using q by (simp only: of_int_le_iff mult_le_cancel_right_pos)
    then show ?thesis
      using x y True by (simp add: fl64_def q_def ex_def ey_def Let_def)
  next
    case False
    with le have lt: "ex + 1 \<le> ey" by simp
    then have bey: "ey = binade y" and norm: "- 1022 \<le> binade y"
      by (simp_all add: ex_def ey_def max_def split: if_splits)
    have "fl64 x \<le> 2 powi (ex + 1)" using fl64_le_next_binade [OF assms(1)] by (simp add: ex_def)
    also have "\<dots> \<le> 2 powi ey" using lt by (intro power_int_increasing) simp_all
    also have "\<dots> \<le> fl64 y" unfolding bey by (rule fl64_ge_binade [OF y(2) norm])
    finally show ?thesis .
  qed
qed

lemma fl64_mono:
  assumes "x \<le> y"
  shows "fl64 x \<le> fl64 y"
proof -
  consider "0 < x" | "x \<le> 0" "0 \<le> y" | "y < 0" by linarith
  then show ?thesis
  proof cases
    case 1
    then show ?thesis using assms by (rule fl64_mono_pos)
  next
    case 2
    have "fl64 x = - fl64 (- x)" by (simp add: fl64_minus)
    moreover have "0 \<le> fl64 (- x)" using 2(1) by (intro fl64_nonneg) simp
    moreover have "0 \<le> fl64 y" using 2(2) by (rule fl64_nonneg)
    ultimately show ?thesis by linarith
  next
    case 3
    then have "0 < - y" and "- y \<le> - x" using assms by simp_all
    then have "fl64 (- y) \<le> fl64 (- x)" by (rule fl64_mono_pos)
    then show ?thesis by (simp add: fl64_minus)
  qed
qed

lemma smoothStep_b64_0: "smoothStep_b64 0 = 0"
  by (simp add: smoothStep_b64_def fl64_0)

lemma smoothStep_b64_nonneg: "0 \<le> smoothStep_b64 v"
proof -
  define c where "c = max 0 (min 1 v)"
  have c: "0 \<le> c" "c \<le> 1" by (simp_all add: c_def)
  have a: "0 \<le> fl64 (c * c)" using c by (intro fl64_nonneg) simp
  have "fl64 (2 * c) \<le> fl64 2" using c by (intro fl64_mono) simp
  then have "0 \<le> 3 - fl64 (2 * c)" by (simp add: fl64_2)
  then have b: "0 \<le> fl64 (3 - fl64 (2 * c))" by (rule fl64_nonneg)
  from a b have "0 \<le> fl64 (fl64 (c * c) * fl64 (3 - fl64 (2 * c)))"
    by (intro fl64_nonneg) simp
  then show ?thesis by (simp add: smoothStep_b64_def c_def Let_def)
qed

subsection \<open>Zoom strength in binary64\<close>

lemma computeRegionStrength_b64_outside:
  assumes t: "fl64 t = t" and out: "t < startMs r - 320 \<or> endMs r + 320 < t"
  shows "computeRegionStrength_b64 r t = 0"
proof -
  define L where "L = fl64 (startMs r - 320)"
  define R where "R = fl64 (endMs r + 320)"
  from out show ?thesis
  proof
    assume "t < startMs r - 320"
    then have "fl64 t \<le> L" unfolding L_def by (intro fl64_mono) simp
    then have tL: "t \<le> L" by (simp only: t)
    show ?thesis
    proof (cases "t < L")
      case True
      then show ?thesis by (simp add: computeRegionStrength_b64_def TRANSITION_MS_def L_def)
    next
      case False
      with tL have eq: "L = t" by simp
      have "min (smoothStep_b64 0) (smoothStep_b64 (fl64 (fl64 (R - t) / 320))) = 0"
        using smoothStep_b64_nonneg [of "fl64 (fl64 (R - t) / 320)"] by (simp add: smoothStep_b64_0)
      then show ?thesis
        using eq by (simp add: computeRegionStrength_b64_def TRANSITION_MS_def L_def [symmetric]
            R_def [symmetric] fl64_0 Let_def)
    qed
  next
    assume "endMs r + 320 < t"
    then have "R \<le> fl64 t" unfolding R_def by (intro fl64_mono) simp
    then have tR: "R \<le> t" by (simp only: t)
    show ?thesis
    proof (cases "R < t")
      case True
      then show ?thesis by (simp add: computeRegionStrength_b64_def TRANSITION_MS_def R_def)
    next
      case False
      with tR have eq: "R = t" by simp
      have "min (smoothStep_b64 (fl64 (fl64 (t - L) / 320))) (smoothStep_b64 0) = 0"
        using smoothStep_b64_nonneg [of "fl64 (fl64 (t - L) / 320)"] by (simp add: smoothStep_b64_0)
      then show ?thesis
        using eq by (simp add: computeRegionStrength_b64_def TRANSITION_MS_def L_def [symmetric]
            R_def [symmetric] fl64_0 Let_def)
    qed
  qed
qed


lemma computeRegionStrength_b64_inside:
  assumes "fl64 (startMs r - 320) = startMs r - 320" and "fl64 (endMs r + 320) = endMs r + 320"
    and inside: "startMs r \<le> t \<and> t \<le> endMs r"
  shows "computeRegionStrength_b64 r t = 1"
proof -
  from inside have "320 \<le> fl64 (t - (startMs r - 320))" and "320 \<le> fl64 (endMs r + 320 - t)"
    by (simp_all add: fl64_ge_320)
  then have "1 \<le> fl64 (fl64 (t - (startMs r - 320)) / 320)"
    and "1 \<le> fl64 (fl64 (endMs r + 320 - t) / 320)"
    by (simp_all add: fl64_ge_1)
  then have "smoothStep_b64 (fl64 (fl64 (t - (startMs r - 320)) / 320)) = 1"
    and "smoothStep_b64 (fl64 (fl64 (endMs r + 320 - t) / 320)) = 1"
    by (simp_all only: smoothStep_b64_ge_1)
  with inside show ?thesis
    using assms(1,2) by (simp add: computeRegionStrength_b64_def TRANSITION_MS_def)
qed

text \<open>
  \<^bold>\<open>C1\<close>, as stated, fails in the arithmetic the code runs in. For the region from 0 to
  \<open>2 ^ 34 - 3 / 2 ^ 19\<close> (the binary64 number 17179869183.999994) and the time \<open>t\<close> equal
  to its end, \<open>endMs + 320\<close> is rounded down, and the strength inside the region is the
  number just below 1.
\<close>

theorem computeRegionStrength_b64_below_one:
  "fl64 (2 ^ 34 - 3 / 2 ^ 19) = 2 ^ 34 - 3 / 2 ^ 19
   \<and> computeRegionStrength_b64
       \<lparr> region_id = ''z1'', startMs = 0, endMs = 2 ^ 34 - 3 / 2 ^ 19, depth = Depth3,
         focus = \<lparr> cx = 0.5, cy = 0.06 \<rparr> \<rparr> (2 ^ 34 - 3 / 2 ^ 19) = 1 - 1 / 2 ^ 53"
  by (simp add: computeRegionStrength_b64_def smoothStep_b64_def fl64_def binade_def compute_bitlen
      round_half_even_def TRANSITION_MS_def Let_def)

text \<open>
  \<^bold>\<open>C1\<close>, amended. For every zoom region \<open>r\<close> and every binary64 time \<open>t\<close>: the
  strength of \<open>r\<close> at \<open>t\<close> is 0 whenever \<open>t\<close> lies outside
  \<open>[startMs r - 320, endMs r + 320]\<close>; and it is exactly 1 whenever \<open>t\<close> lies inside
  \<open>[startMs r, endMs r]\<close> and the two window bounds \<open>startMs r - 320\<close> and
  \<open>endMs r + 320\<close> are computed without rounding, as every integer of magnitude below
  \<open>2 ^ 53\<close> is.
\<close>

theorem computeRegionStrength_b64_envelope:
  "(fl64 t = t \<and> (t < startMs r - 320 \<or> endMs r + 320 < t) \<longrightarrow>
      computeRegionStrength_b64 r t = 0)
   \<and> (fl64 (startMs r - 320) = startMs r - 320 \<and> fl64 (endMs r + 320) = endMs r + 320
        \<and> startMs r \<le> t \<and> t \<le> endMs r \<longrightarrow>
      computeRegionStrength_b64 r t = 1)
   \<and> (\<bar>n\<bar> < 2 ^ 53 \<longrightarrow> fl64 (of_int n) = of_int n)"
proof (intro conjI impI)
  assume "fl64 t = t \<and> (t < startMs r - 320 \<or> endMs r + 320 < t)"
  then show "computeRegionStrength_b64 r t = 0"
    by (simp add: computeRegionStrength_b64_outside)
next
  assume "fl64 (startMs r - 320) = startMs r - 320 \<and> fl64 (endMs r + 320) = endMs r + 320
        \<and> startMs r \<le> t \<and> t \<le> endMs r"
  then show "computeRegionStrength_b64 r t = 1"
    by (simp add: computeRegionStrength_b64_inside)
next
  assume "\<bar>n\<bar> < 2 ^ 53"
  then show "fl64 (of_int n) = of_int n" by (rule fl64_of_int)
qed

theorem computeRegionStrength_b64_envelope_witness:
  "computeRegionStrength_b64 example_region 500 = 0
   \<and> computeRegionStrength_b64 example_region 2000 = 1
   \<and> fl64 3320 = 3320"
proof -
  have e: "fl64 500 = 500" "fl64 680 = 680" "fl64 3320 = 3320"
    using fl64_of_int [of 500] fl64_of_int [of 680] fl64_of_int [of 3320] by simp_all
  show ?thesis
    using computeRegionStrength_b64_envelope [of 500 example_region 3320]
      computeRegionStrength_b64_envelope [of 2000 example_region 3320] e
    by (simp add: example_region_def)
qed

subsection \<open>Static zoom\<close>

text \<open>
  \<^bold>\<open>C6\<close>. For the focus \<open>(0.5, 0.06)\<close> at depth 3 (scale 1.8) on a 1920 by 1080 frame,
  the focus is first clamped by the margin \<open>1 / (2 * 1.8)\<close>, which raises \<open>cy\<close> to the
  margin, and the static zoom filter is then
  \<^verbatim>\<open>crop=1067:600:427:0,scale=1920:1080:flags=lanczos\<close>.
\<close>

theorem generateStaticZoomFilter_search_bar:
  "clampFocus \<lparr> cx = 0.5, cy = 0.06 \<rparr> Depth3 = \<lparr> cx = 0.5, cy = 1 / (2 * 1.8) \<rparr>
   \<and> generateStaticZoomFilter \<lparr> cx = 0.5, cy = 0.06 \<rparr> Depth3 1920 1080
       = ''crop=1067:600:427:0,scale=1920:1080:flags=lanczos''"
  by (simp add: generateStaticZoomFilter_def clampFocus_def clamp_def Math_round_def
      show_eval Let_def)

subsection \<open>Crop\<close>

text \<open>
  \<^bold>\<open>C5\<close>. For every crop region and every integer input width and height, the filter
  string is \<^verbatim>\<open>crop=W:H:X:Y\<close> where the printed width \<open>W\<close> and height \<open>H\<close> are even
  integers; the region \<open>{x = 0, y = 0.05, width = 1, height = 0.95}\<close> on a 1920 by 1080
  frame gives \<^verbatim>\<open>crop=1920:1026:0:54\<close>.
\<close>

theorem generateCropFilter_even_dimensions:
  "generateCropFilter c iw ih =
     ''crop='' @ show_int (even_down (Math_round (crop_width c * of_int iw)))
     @ '':'' @ show_int (even_down (Math_round (crop_height c * of_int ih)))
     @ '':'' @ show_int (Math_round (crop_x c * of_int iw))
     @ '':'' @ show_int (Math_round (crop_y c * of_int ih))
   \<and> even (even_down (Math_round (crop_width c * of_int iw)))
   \<and> even (even_down (Math_round (crop_height c * of_int ih)))
   \<and> generateCropFilter \<lparr> crop_x = 0, crop_y = 0.05, crop_width = 1, crop_height = 0.95 \<rparr> 1920 1080
       = ''crop=1920:1026:0:54''"
proof (intro conjI)
  show "generateCropFilter \<lparr> crop_x = 0, crop_y = 0.05, crop_width = 1, crop_height = 0.95 \<rparr> 1920 1080
       = ''crop=1920:1026:0:54''"
    by (simp add: generateCropFilter_def even_down_def js_rem_def Math_round_def show_eval Let_def)
qed (simp_all add: generateCropFilter_def Let_def even_even_down)

subsection \<open>Kept segments and effective duration\<close>

lemma trim_iter_pair:
  "trim_iter (acc, c) r =
     (if c < startMs r / 1000 then acc @ [\<lparr> startSec = c, endSec = startMs r / 1000 \<rparr>] else acc,
      endMs r / 1000)"
  by (simp add: trim_iter_def)

lemma foldl_trim_iter_walk:
  "(let st = foldl trim_iter (acc, c) rs
    in if snd st < T then fst st @ [\<lparr> startSec = snd st, endSec = T \<rparr>] else fst st)
   = acc @ cursor_walk c rs T"
proof (induction rs arbitrary: acc c)
  case Nil
  show ?case by simp
next
  case (Cons r rs)
  show ?case
  proof (cases "c < startMs r / 1000")
    case True
    then show ?thesis
      using Cons.IH [of "acc @ [\<lparr> startSec = c, endSec = startMs r / 1000 \<rparr>]" "endMs r / 1000"]
      by (simp only: foldl_Cons trim_iter_pair if_True cursor_walk.simps append_assoc)
  next
    case False
    then show ?thesis
      using Cons.IH [of acc "endMs r / 1000"]
      by (simp only: foldl_Cons trim_iter_pair if_False cursor_walk.simps append_Nil)
  qed
qed

lemma computeKeptSegments_nonempty:
  "trimRegions \<noteq> [] \<Longrightarrow>
     computeKeptSegments trimRegions totalDurationMs =
       cursor_walk 0 (sort_key startMs trimRegions) (totalDurationMs / 1000)"
  using foldl_trim_iter_walk [of "[]" 0 "sort_key startMs trimRegions" "totalDurationMs / 1000"]
  by (simp add: computeKeptSegments_def Let_def)

text \<open>
  \<^bold>\<open>C3\<close>. \<open>computeKeptSegments\<close> is the cursor walk over the cut regions sorted by
  start: for a list with at least one cut region it returns what the walk returns; for
  zero cut regions it returns exactly one segment \<open>[0, durationMs / 1000]\<close>, which is also
  what the walk gives on a clip of positive duration; and for the single region
  \<open>{start = 5000, end = 10000}\<close> over a 60000 ms clip it returns \<open>[{0, 5}, {10, 60}]\<close>.
\<close>

theorem computeKeptSegments_cursor_walk:
  "(trimRegions \<noteq> [] \<longrightarrow>
      computeKeptSegments trimRegions totalDurationMs = kept_segments_walk trimRegions totalDurationMs)
   \<and> computeKeptSegments [] totalDurationMs = [\<lparr> startSec = 0, endSec = totalDurationMs / 1000 \<rparr>]
   \<and> (0 < totalDurationMs \<longrightarrow>
      kept_segments_walk [] totalDurationMs = [\<lparr> startSec = 0, endSec = totalDurationMs / 1000 \<rparr>])
   \<and> computeKeptSegments [\<lparr> region_id = ''t1'', startMs = 5000, endMs = 10000 \<rparr>] 60000
       = [\<lparr> startSec = 0, endSec = 5 \<rparr>, \<lparr> startSec = 10, endSec = 60 \<rparr>]"
proof (intro conjI impI)
  assume "trimRegions \<noteq> []"
  then show "computeKeptSegments trimRegions totalDurationMs
             = kept_segments_walk trimRegions totalDurationMs"
    by (simp add: computeKeptSegments_nonempty kept_segments_walk_def)
next
  show "computeKeptSegments [] totalDurationMs = [\<lparr> startSec = 0, endSec = totalDurationMs / 1000 \<rparr>]"
    by (simp add: computeKeptSegments_def)
next
  assume "0 < totalDurationMs"
  then show "kept_segments_walk [] totalDurationMs
             = [\<lparr> startSec = 0, endSec = totalDurationMs / 1000 \<rparr>]"
    by (simp add: kept_segments_walk_def)
next
  show "computeKeptSegments [\<lparr> region_id = ''t1'', startMs = 5000, endMs = 10000 \<rparr>] 60000
        = [\<lparr> startSec = 0, endSec = 5 \<rparr>, \<lparr> startSec = 10, endSec = 60 \<rparr>]"
    by (simp add: computeKeptSegments_def trim_iter_def Let_def)
qed

theorem computeKeptSegments_cursor_walk_witness:
  "computeKeptSegments
     [\<lparr> region_id = ''a'', startMs = 20000, endMs = 30000 \<rparr>,
      \<lparr> region_id = ''b'', startMs = 5000, endMs = 10000 \<rparr>] 60000
   = [\<lparr> startSec = 0, endSec = 5 \<rparr>, \<lparr> startSec = 10, endSec = 20 \<rparr>,
      \<lparr> startSec = 30, endSec = 60 \<rparr>]
   \<and> kept_segments_walk [] 60000 = [\<lparr> startSec = 0, endSec = 60 \<rparr>]"
  using computeKeptSegments_cursor_walk
      [of "[\<lparr> region_id = ''a'', startMs = 20000, endMs = 30000 \<rparr>,
            \<lparr> region_id = ''b'', startMs = 5000, endMs = 10000 \<rparr>]" 60000]
  by (simp add: kept_segments_walk_def)

lemma foldl_sum_lengths:
  "foldl (\<lambda>sum r. sum + (endMs r - startMs r)) a rs = a + (\<Sum>r\<leftarrow>rs. endMs r - startMs r)"
  by (induction rs arbitrary: a) simp_all

lemma computeEffectiveDuration_closed:
  "computeEffectiveDuration rs d = d - (\<Sum>r\<leftarrow>rs. endMs r - startMs r)"
  by (simp add: computeEffectiveDuration_def foldl_sum_lengths)

text \<open>
  \<^bold>\<open>C7\<close>. The effective duration is the total duration minus the sum of the lengths
  \<open>endMs - startMs\<close> of all cut regions, with no deduplication of overlaps (two
  overlapping regions are both subtracted in full). So adding a cut region with
  \<open>startMs \<le> endMs\<close> anywhere in the list never increases the effective duration, and it
  lowers it by exactly the region's length.
\<close>

theorem computeEffectiveDuration_sum:
  "computeEffectiveDuration rs d = d - (\<Sum>r\<leftarrow>rs. endMs r - startMs r)
   \<and> (startMs r \<le> endMs r \<longrightarrow>
        computeEffectiveDuration (xs @ r # ys) d \<le> computeEffectiveDuration (xs @ ys) d)
   \<and> computeEffectiveDuration (xs @ r # ys) d
       = computeEffectiveDuration (xs @ ys) d - (endMs r - startMs r)
   \<and> computeEffectiveDuration
        [\<lparr> region_id = ''a'', startMs = 0, endMs = 6000 \<rparr>,
         \<lparr> region_id = ''b'', startMs = 4000, endMs = 10000 \<rparr>] 60000 = 48000"
proof (intro conjI impI)
  show "computeEffectiveDuration rs d = d - (\<Sum>r\<leftarrow>rs. endMs r - startMs r)"
    by (rule computeEffectiveDuration_closed)
  show exact: "computeEffectiveDuration (xs @ r # ys) d
       = computeEffectiveDuration (xs @ ys) d - (endMs r - startMs r)"
    by (simp add: computeEffectiveDuration_closed)
  assume "startMs r \<le> endMs r"
  with exact show "computeEffectiveDuration (xs @ r # ys) d \<le> computeEffectiveDuration (xs @ ys) d"
    by simp
qed (simp add: computeEffectiveDuration_closed)

theorem computeEffectiveDuration_sum_witness:
  "computeEffectiveDuration [\<lparr> region_id = ''t1'', startMs = 5000, endMs = 10000 \<rparr>] 60000
     \<le> computeEffectiveDuration [] 60000"
  using computeEffectiveDuration_sum
      [where r = "\<lparr> region_id = ''t1'', startMs = 5000, endMs = 10000 \<rparr>"
         and xs = "[]" and ys = "[]" and d = 60000]
  by simp

subsection \<open>Zoom keyframes\<close>

lemma tick_count_step:
  assumes "0 < iv" and "t \<le> dur"
  shows "tick_count t dur iv = Suc (tick_count (t + iv) dur iv)"
proof (cases "t + iv \<le> dur")
  case True
  then have "1 \<le> (dur - t) / iv" using assms by (simp add: pos_le_divide_eq)
  then have f: "1 \<le> \<lfloor>(dur - t) / iv\<rfloor>" by linarith
  have "(dur - (t + iv)) / iv = (dur - t) / iv - 1"
    using assms by (simp add: field_simps)
  then have "\<lfloor>(dur - (t + iv)) / iv\<rfloor> = \<lfloor>(dur - t) / iv\<rfloor> - 1" by simp
  with f True assms show ?thesis by (simp add: tick_count_def nat_diff_distrib)
next
  case False
  then have "(dur - t) / iv < 1" using assms by (simp add: pos_divide_less_eq)
  moreover have "0 \<le> (dur - t) / iv" using assms by simp
  ultimately have "\<lfloor>(dur - t) / iv\<rfloor> = 0" by linarith
  with False assms show ?thesis by (simp add: tick_count_def)
qed

lemma sample_loop_ticks:
  assumes "0 < iv"
  shows "tick_count t dur iv = n \<Longrightarrow>
     sample_loop regs dur iv t acc
       = Some (acc @ map (\<lambda>j. keyframe_at regs (t + real j * iv)) [0 ..< n])"
proof (induction n arbitrary: t acc)
  case 0
  then have "\<not> t \<le> dur" by (simp add: tick_count_def split: if_splits)
  then show ?case by (subst sample_loop.simps) simp
next
  case (Suc n)
  then have le: "t \<le> dur" by (simp add: tick_count_def split: if_splits)
  with Suc.prems assms have "tick_count (t + iv) dur iv = n"
    by (simp add: tick_count_step)
  from Suc.IH [OF this, of "acc @ [keyframe_at regs t]"]
  have "sample_loop regs dur iv t acc
      = Some (acc @ keyframe_at regs t # map (\<lambda>j. keyframe_at regs (t + iv + real j * iv)) [0 ..< n])"
    using le by (subst sample_loop.simps) simp
  moreover have "map (\<lambda>j. keyframe_at regs (t + real j * iv)) [0 ..< Suc n]
      = keyframe_at regs t # map (\<lambda>j. keyframe_at regs (t + iv + real j * iv)) [0 ..< n]"
    by (simp add: upt_conv_Cons map_Suc_upt [symmetric] algebra_simps del: upt_Suc)
  ultimately show ?case by simp
qed

lemma dominant_invariant:
  "0 \<le> snd st \<Longrightarrow> (fst st = None \<longrightarrow> snd st = 0) \<Longrightarrow> (fst st \<noteq> None \<longrightarrow> 0 < snd st) \<Longrightarrow>
   (let res = foldl (dominant_iter t) st rs
    in 0 \<le> snd res \<and> (fst res = None \<longrightarrow> snd res = 0) \<and> (fst res \<noteq> None \<longrightarrow> 0 < snd res))"
proof (induction rs arbitrary: st)
  case Nil
  then show ?case by simp
next
  case (Cons r rs)
  show ?case
    using Cons.prems
    by (simp only: foldl_Cons, intro Cons.IH) (auto simp: dominant_iter_def Let_def)
qed

lemma findDominantRegion_Some_pos: "findDominantRegion regs t = (Some r, s) \<Longrightarrow> 0 < s"
  using dominant_invariant [of "(None, 0)" t regs]
  by (simp add: findDominantRegion_def Let_def)

lemma timeMs_keyframe_at: "timeMs (keyframe_at regs t) = t"
  by (simp add: keyframe_at_def Let_def split: prod.splits option.splits)

lemma keyframe_at_blends: "blends_by_scale regs (keyframe_at regs t)"
  by (auto simp: blends_by_scale_def timeMs_keyframe_at keyframe_at_def Let_def
      dest: findDominantRegion_Some_pos split: prod.splits option.splits)

lemma sample_loop_partial:
  assumes "sample_loop regs dur iv t acc = Some kfs"
  shows "(\<forall>k\<in>set acc. blends_by_scale regs k) \<longrightarrow> (\<forall>k\<in>set kfs. blends_by_scale regs k)"
proof (rule sample_loop.raw_induct
    [where P = "\<lambda>regs dur iv t acc kfs.
       (\<forall>k\<in>set acc. blends_by_scale regs k) \<longrightarrow> (\<forall>k\<in>set kfs. blends_by_scale regs k)",
     OF _ assms])
  fix loop :: "ZoomRegion list \<Rightarrow> real \<Rightarrow> real \<Rightarrow> real \<Rightarrow> ZoomKeyframe list \<Rightarrow> ZoomKeyframe list option"
  fix regs dur iv t acc kfs
  assume IH: "\<And>regs dur iv t acc kfs. loop regs dur iv t acc = Some kfs \<Longrightarrow>
      (\<forall>k\<in>set acc. blends_by_scale regs k) \<longrightarrow> (\<forall>k\<in>set kfs. blends_by_scale regs k)"
  assume eq: "(if t \<le> dur then loop regs dur iv (t + iv) (acc @ [keyframe_at regs t])
               else Some acc) = Some kfs"
  show "(\<forall>k\<in>set acc. blends_by_scale regs k) \<longrightarrow> (\<forall>k\<in>set kfs. blends_by_scale regs k)"
  proof (cases "t \<le> dur")
    case True
    with eq have "loop regs dur iv (t + iv) (acc @ [keyframe_at regs t]) = Some kfs"
      by simp
    from IH [OF this] show ?thesis
      by (simp add: keyframe_at_blends)
  next
    case False
    with eq show ?thesis by simp
  qed
qed

lemma example_region_dominant: "findDominantRegion [example_region] 840 = (Some example_region, 1 / 2)"
  by (simp add: findDominantRegion_def dominant_iter_def computeRegionStrength_def example_region_def
       TRANSITION_MS_def smoothStep_def Let_def)

lemma example_tick_count: "tick_count 0 840 420 = 3"
  by (simp add: tick_count_def)

text \<open>
  \<^bold>\<open>C2\<close>, as stated, fails: at strength \<open>1/2\<close> the sampled crop width of a depth-3
  region is \<open>5/7\<close>, not the linear blend \<open>1 + (1/1.8 - 1) * (1/2) = 7/9\<close>.
\<close>

theorem sampleZoomKeyframes_not_linear:
  "sampleZoomKeyframes [example_region] 840 420 =
     Some [\<lparr> timeMs = 0, cropWidth = 1, cropHeight = 1, centerX = 0.5, centerY = 0.5 \<rparr>,
           \<lparr> timeMs = 420, cropWidth = 1, cropHeight = 1, centerX = 0.5, centerY = 0.5 \<rparr>,
           \<lparr> timeMs = 840, cropWidth = 5 / 7, cropHeight = 5 / 7, centerX = 0.5, centerY = 7 / 18 \<rparr>]
   \<and> findDominantRegion [example_region] 840 = (Some example_region, 1 / 2)
   \<and> (5 / 7 :: real) \<noteq> 1 + (1 / ZOOM_DEPTH_SCALES (depth example_region) - 1) * (1 / 2)"
proof -
  have k0: "keyframe_at [example_region] 0
      = \<lparr> timeMs = 0, cropWidth = 1, cropHeight = 1, centerX = 0.5, centerY = 0.5 \<rparr>"
    by (simp add: keyframe_at_def findDominantRegion_def dominant_iter_def computeRegionStrength_def
        example_region_def TRANSITION_MS_def smoothStep_def Let_def)
  have k1: "keyframe_at [example_region] 420
      = \<lparr> timeMs = 420, cropWidth = 1, cropHeight = 1, centerX = 0.5, centerY = 0.5 \<rparr>"
    by (simp add: keyframe_at_def findDominantRegion_def dominant_iter_def computeRegionStrength_def
        example_region_def TRANSITION_MS_def smoothStep_def Let_def)
  have k2: "keyframe_at [example_region] 840
      = \<lparr> timeMs = 840, cropWidth = 5 / 7, cropHeight = 5 / 7, centerX = 0.5, centerY = 7 / 18 \<rparr>"
    by (simp add: keyframe_at_def example_region_dominant)
       (simp add: example_region_def clampFocus_def clamp_def Let_def)
  have "sampleZoomKeyframes [example_region] 840 420
      = Some [keyframe_at [example_region] 0, keyframe_at [example_region] 420,
              keyframe_at [example_region] 840]"
    using sample_loop_ticks [OF _ example_tick_count, where regs = "[example_region]" and acc = "[]"]
    by (simp add: sampleZoomKeyframes_def upt_conv_Cons del: upt_Suc)
  then show ?thesis
    by (simp add: k0 k1 k2 example_region_dominant) (simp add: example_region_def)
qed

text \<open>
  \<^bold>\<open>C2\<close>, amended. For every region list, duration and sample interval, each keyframe
  that \<open>sampleZoomKeyframes\<close> returns blends between the full frame and the dominant
  region's target by the strength \<open>s\<close> at its time: the centre linearly,
  \<open>centerX = 0.5 + (clampedCx - 0.5) * s\<close> and \<open>centerY = 0.5 + (clampedCy - 0.5) * s\<close>;
  the crop size through the scale, \<open>cropWidth = cropHeight = 1 / (1 + (scale - 1) * s)\<close>,
  which is 1 at strength 0 and \<open>1 / scale\<close> at strength 1. With no dominant region the
  keyframe carries the full-frame values. For a positive interval the function does
  return, with one keyframe per tick \<open>0, iv, 2 * iv, ...\<close> up to the duration.
\<close>

theorem sampleZoomKeyframes_blend:
  "(\<forall>kfs. sampleZoomKeyframes regs dur iv = Some kfs \<longrightarrow>
       (\<forall>k\<in>set kfs. blends_by_scale regs k))
   \<and> (0 < iv \<longrightarrow>
        (\<exists>kfs. sampleZoomKeyframes regs dur iv = Some kfs
           \<and> map timeMs kfs = map (\<lambda>j. real j * iv) [0 ..< tick_count 0 dur iv]))"
proof (intro conjI allI impI)
  fix kfs
  assume "sampleZoomKeyframes regs dur iv = Some kfs"
  then show "\<forall>k\<in>set kfs. blends_by_scale regs k"
    using sample_loop_partial [of regs dur iv 0 "[]" kfs] by (simp add: sampleZoomKeyframes_def)
next
  assume "0 < iv"
  then show "\<exists>kfs. sampleZoomKeyframes regs dur iv = Some kfs
           \<and> map timeMs kfs = map (\<lambda>j. real j * iv) [0 ..< tick_count 0 dur iv]"
    using sample_loop_ticks
        [OF _ refl, where t = 0 and dur = dur and regs = regs and acc = "[]" and iv = iv]
    by (auto simp: sampleZoomKeyframes_def timeMs_keyframe_at)
qed

theorem sampleZoomKeyframes_blend_witness:
  "\<exists>kfs. sampleZoomKeyframes [example_region] 840 420 = Some kfs
     \<and> map timeMs kfs = [0, 420, 840]
     \<and> (\<forall>k\<in>set kfs. blends_by_scale [example_region] k)"
  using sampleZoomKeyframes_blend [of "[example_region]" 840 420]
  by (auto simp add: example_tick_count upt_conv_Cons simp del: upt_Suc)

subsection \<open>Pipeline: the trim stage\<close>

lemma trim_stage_no_trim:
  "\<not> needsTrim config \<Longrightarrow> trim_stage numStr config = Inr ([], inputPath config, 0)"
  by (simp add: trim_stage_def)

lemma trim_stage_no_segment:
  "needsTrim config \<Longrightarrow> computeKeptSegments (the (trim config)) (durationMs (video config)) = []
   \<Longrightarrow> trim_stage numStr config = Inr ([], inputPath config, 0)"
  by (simp add: trim_stage_def)

lemma trim_stage_seek:
  "needsTrim config \<Longrightarrow> computeKeptSegments (the (trim config)) (durationMs (video config)) = [seg]
   \<Longrightarrow> \<not> needsZoom config \<Longrightarrow> \<not> needsCrop config \<Longrightarrow> \<not> needsBackground config
   \<Longrightarrow> \<not> needsAnnotations config
   \<Longrightarrow> trim_stage numStr config = Inl [seek_trim_step config seg]"
  by (simp add: trim_stage_def encode_args_def seek_trim_step_def)

lemma trim_stage_concat:
  "needsTrim config \<Longrightarrow> 1 < length (computeKeptSegments (the (trim config)) (durationMs (video config)))
   \<Longrightarrow> trim_stage numStr config =
       Inr ([concat_trim_step numStr config], intermediateOutput (outputPath config) 0, 1)"
  by (simp add: trim_stage_def encode_args_def concat_trim_step_def Let_def)

lemma trim_stage_Inl:
  "trim_stage numStr config = Inl steps \<Longrightarrow>
     \<not> needsBackground config \<and> (\<forall>s\<in>set steps. \<not> has_background_label s)"
  by (auto simp: trim_stage_def Let_def has_background_label_def split: if_splits)

lemma trim_stage_Inr:
  "trim_stage numStr config = Inr (steps, ci, si) \<Longrightarrow> \<forall>s\<in>set steps. \<not> has_background_label s"
  by (auto simp: trim_stage_def Let_def has_background_label_def split: if_splits)

lemma computeKeptSegments_Nil_nonempty: "computeKeptSegments rs d = [] \<Longrightarrow> rs \<noteq> []"
  by (auto simp: computeKeptSegments_def)

lemma vf_parts_none:
  "\<not> needsZoom config \<Longrightarrow> \<not> needsCrop config \<Longrightarrow> \<not> needsAnnotations config
   \<Longrightarrow> vf_parts numStr config = []"
  by (simp add: vf_parts_def)

lemma effects_stage_nothing:
  "\<not> needsZoom config \<Longrightarrow> \<not> needsCrop config \<Longrightarrow> \<not> needsBackground config
   \<Longrightarrow> \<not> needsAnnotations config
   \<Longrightarrow> effects_stage numStr config ([], src, si) = [copy_step src (outputPath config)]"
  by (simp add: effects_stage_def vf_parts_none copy_step_def)

lemma effects_stage_no_trim_step:
  "\<forall>s\<in>set (effects_stage numStr config ([], src, si)). \<not> is_trim_step s"
  by (auto simp: effects_stage_def Let_def is_trim_step_def)

lemma intermediateOutput_example_0: "intermediateOutput ''out.mp4'' 0 = ''out_step0.mp4''"
  by (simp add: intermediateOutput_def lastIndexOf_def substring_def show_nat.simps digit_char_def Let_def)

lemma intermediateOutput_example_1: "intermediateOutput ''out.mp4'' (Suc 0) = ''out_step1.mp4''"
  by (simp add: intermediateOutput_def lastIndexOf_def substring_def show_nat.simps digit_char_def Let_def)

lemma step_input_filter_pass_step: "step_input (filter_pass_step d src ps dst) = Some src"
  by (simp add: step_input_def filter_pass_step_def)

lemma step_output_filter_pass_step: "step_output (filter_pass_step d src ps dst) = Some dst"
  by (simp add: step_output_def filter_pass_step_def)

lemma step_input_background_step: "step_input (background_step numStr config b src) = Some src"
  by (simp add: step_input_def background_step_def)

lemma step_output_background_step:
  "step_output (background_step numStr config b src) = Some (outputPath config)"
  by (simp add: step_output_def background_step_def split: option.splits)

lemma effects_stage_eq:
  "effects_stage numStr config (steps, src, si) =
     steps @
     (if needsBackground config then
        (if vf_parts numStr config \<noteq> [] then
           [filter_pass_step ''Apply zoom/crop/annotations'' src (vf_parts numStr config)
              (intermediateOutput (outputPath config) si),
            background_step numStr config (the (background config))
              (intermediateOutput (outputPath config) si)]
         else [background_step numStr config (the (background config)) src])
      else if vf_parts numStr config \<noteq> [] then
        [filter_pass_step ''Apply video effects (zoom/crop/annotations)'' src
           (vf_parts numStr config) (outputPath config)]
      else if steps = [] then [copy_step src (outputPath config)]
      else [])"
  by (simp add: effects_stage_def Let_def filter_pass_step_def background_step_def copy_step_def
      encode_args_def split: option.splits)

lemma chained_snoc:
  "chained (steps @ [s]) \<longleftrightarrow>
     chained steps \<and> (steps = [] \<or> step_input s = step_output (last steps))"
  by (induction steps rule: chained.induct) auto

lemma chained_snoc2:
  "chained (steps @ [a, b]) \<longleftrightarrow> chained (steps @ [a]) \<and> step_input b = step_output a"
  using chained_snoc [of "steps @ [a]" b] by simp

lemma effects_stage_chained:
  assumes "chained steps" and "steps = [] \<or> step_output (last steps) = Some src"
  shows "chained (effects_stage numStr config (steps, src, si))"
  using assms
  by (auto simp: effects_stage_eq chained_snoc chained_snoc2 step_input_filter_pass_step
      step_output_filter_pass_step step_input_background_step)

subsection \<open>Pipeline: the example plans\<close>

lemma replicate_numeral_2: "replicate 2 c = [c, c]"
  by (simp add: numeral_2_eq_2)

lemma example_three_pass_segments:
  "computeKeptSegments (the (trim example_three_pass)) (durationMs (video example_three_pass))
     = [\<lparr> startSec = 0, endSec = 5 \<rparr>, \<lparr> startSec = 10, endSec = 60 \<rparr>]"
  by (simp add: example_three_pass_def example_plain_def computeKeptSegments_def trim_iter_def Let_def)

lemma example_seek_segments:
  "computeKeptSegments (the (trim example_seek)) (durationMs (video example_seek))
     = [\<lparr> startSec = 5, endSec = 60 \<rparr>]"
  by (simp add: example_seek_def example_plain_def computeKeptSegments_def trim_iter_def Let_def)

lemma example_three_pass_needsBackground: "needsBackground example_three_pass"
  by (simp add: needsBackground_def example_three_pass_def example_plain_def example_padded_def
      or_else_def)

lemma example_three_pass_vf_parts:
  "vf_parts print_integral example_three_pass = [''crop=1920:1026:0:54'']"
  by (simp add: vf_parts_def needsCrop_def needsZoom_def needsAnnotations_def
      example_three_pass_def example_plain_def generateCropFilter_def even_down_def js_rem_def
      Math_round_def show_eval Let_def)

lemma example_three_pass_plan:
  "buildPipeline print_integral example_three_pass =
     [concat_trim_step print_integral example_three_pass,
      filter_pass_step ''Apply zoom/crop/annotations'' ''out_step0.mp4''
        [''crop=1920:1026:0:54''] ''out_step1.mp4'',
      background_step print_integral example_three_pass example_padded ''out_step1.mp4'']"
proof -
  have nt: "needsTrim example_three_pass"
    by (simp add: needsTrim_def example_three_pass_def example_plain_def)
  have ts: "trim_stage print_integral example_three_pass =
       Inr ([concat_trim_step print_integral example_three_pass], ''out_step0.mp4'', 1)"
    using trim_stage_concat [OF nt, of print_integral] example_three_pass_segments
      intermediateOutput_example_0
    by (simp add: example_three_pass_def example_plain_def)
  have out: "outputPath example_three_pass = ''out.mp4''"
    and bg: "the (background example_three_pass) = example_padded"
    by (simp_all add: example_three_pass_def example_plain_def)
  show ?thesis
    by (simp add: buildPipeline_def ts effects_stage_eq example_three_pass_needsBackground
        example_three_pass_vf_parts out bg intermediateOutput_example_1)
qed

lemma example_three_pass_inputs:
  "map step_input (buildPipeline print_integral example_three_pass)
     = [Some ''in.mp4'', Some ''out_step0.mp4'', Some ''out_step1.mp4'']"
  by (simp add: example_three_pass_plan step_input_filter_pass_step step_input_background_step)
     (simp add: step_input_def concat_trim_step_def example_three_pass_def example_plain_def)

lemma example_three_pass_outputs:
  "map step_output (buildPipeline print_integral example_three_pass)
     = [Some ''out_step0.mp4'', Some ''out_step1.mp4'', Some ''out.mp4'']"
  by (simp add: example_three_pass_plan step_output_filter_pass_step step_output_background_step)
     (simp add: step_output_def concat_trim_step_def example_three_pass_def example_plain_def
        intermediateOutput_example_0)

subsection \<open>Pipeline: the all-disabled plan\<close>

text \<open>
  \<^bold>\<open>C8\<close>. For every configuration in which all effects are disabled (no trim regions,
  no zoom regions, the crop absent or the identity rectangle, the background absent or
  with padding 0 or none, no annotations), \<open>buildPipeline\<close> returns exactly one step, the
  stream copy from the input path to the output path.
\<close>

theorem buildPipeline_all_disabled:
  assumes "trim config = None \<or> trim config = Some []"
    and "zoom config = None \<or> (\<exists>z. zoom config = Some z \<and> regions z = [])"
    and "crop config = None
         \<or> crop config = Some \<lparr> crop_x = 0, crop_y = 0, crop_width = 1, crop_height = 1 \<rparr>"
    and "background config = None
         \<or> (\<exists>b. background config = Some b \<and> (padding b = None \<or> padding b = Some 0))"
    and "annotations config = None \<or> annotations config = Some []"
  shows "buildPipeline numStr config =
           [\<lparr> description = ''Copy (no effects)'',
              args = [''ffmpeg'', ''-y'', ''-i'', inputPath config, ''-c'', ''copy'', outputPath config] \<rparr>]"
proof -
  have t: "\<not> needsTrim config" using assms(1) by (auto simp: needsTrim_def)
  have z: "\<not> needsZoom config" using assms(2) by (auto simp: needsZoom_def)
  have c: "\<not> needsCrop config" using assms(3) by (auto simp: needsCrop_def)
  have b: "\<not> needsBackground config" using assms(4) by (auto simp: needsBackground_def or_else_def)
  have a: "\<not> needsAnnotations config" using assms(5) by (auto simp: needsAnnotations_def)
  show ?thesis
    by (simp add: buildPipeline_def trim_stage_no_trim [OF t] effects_stage_nothing [OF z c b a]
        copy_step_def)
qed

theorem buildPipeline_all_disabled_witness:
  "buildPipeline print_integral example_disabled =
     [\<lparr> description = ''Copy (no effects)'',
        args = [''ffmpeg'', ''-y'', ''-i'', ''in.mp4'', ''-c'', ''copy'', ''out.mp4''] \<rparr>]"
  using buildPipeline_all_disabled [of example_disabled print_integral]
  by (simp add: example_disabled_def example_plain_def example_rounded_only_def)

subsection \<open>Pipeline: a trim that leaves nothing\<close>

lemma cursor_walk_Nil_iff: "cursor_walk (c / 1000) rs (T / 1000) = [] \<longleftrightarrow> no_gap c rs T"
  by (induction rs arbitrary: c) auto

lemma computeKeptSegments_Nil_iff:
  "computeKeptSegments rs d = [] \<longleftrightarrow> covers_in_start_order rs d"
proof (cases "rs = []")
  case True
  then show ?thesis by (simp add: computeKeptSegments_def covers_in_start_order_def)
next
  case False
  then show ?thesis
    using cursor_walk_Nil_iff [of 0 "sort_key startMs rs" d]
    by (simp add: computeKeptSegments_nonempty covers_in_start_order_def)
qed

text \<open>
  Where the cursor never has to move back, the claim holds: when the regions sorted by start
  cover the clip link by link (the first begins at or before 0, each next one begins at or
  before the end of the one just before it, the last one ends at or after the duration), no
  segment is kept, the trim filter is the empty string, and the plan has no trim step.
\<close>

lemma buildPipeline_cover_in_start_order:
  "(startMs r \<le> 0 \<and> d \<le> endMs r \<longrightarrow> covers_in_start_order [r] d)
   \<and> (covers_in_start_order rs d \<longrightarrow>
        computeKeptSegments rs d = [] \<and> generateTrimFilter numStr rs d hasAudio = [])
   \<and> (trim config = Some rs \<and> covers_in_start_order rs (durationMs (video config)) \<longrightarrow>
        trim_stage numStr config = Inr ([], inputPath config, 0)
        \<and> (\<forall>s\<in>set (buildPipeline numStr config). \<not> is_trim_step s)
        \<and> (\<not> needsZoom config \<and> \<not> needsCrop config \<and> \<not> needsBackground config
             \<and> \<not> needsAnnotations config \<longrightarrow>
            buildPipeline numStr config =
              [\<lparr> description = ''Copy (no effects)'',
                 args = [''ffmpeg'', ''-y'', ''-i'', inputPath config, ''-c'', ''copy'',
                         outputPath config] \<rparr>]))"
proof (intro conjI impI)
  assume "startMs r \<le> 0 \<and> d \<le> endMs r"
  then show "covers_in_start_order [r] d"
    by (simp add: covers_in_start_order_def)
next
  assume c: "covers_in_start_order rs d"
  then show e: "computeKeptSegments rs d = []" by (simp only: computeKeptSegments_Nil_iff)
  then show "generateTrimFilter numStr rs d hasAudio = []"
    by (simp add: generateTrimFilter_def)
next
  assume a: "trim config = Some rs \<and> covers_in_start_order rs (durationMs (video config))"
  then have e: "computeKeptSegments rs (durationMs (video config)) = []"
    by (simp only: computeKeptSegments_Nil_iff)
  have "needsTrim config"
    using a by (simp add: needsTrim_def covers_in_start_order_def)
  with a e show ts: "trim_stage numStr config = Inr ([], inputPath config, 0)"
    by (simp add: trim_stage_no_segment)
  show "\<forall>s\<in>set (buildPipeline numStr config). \<not> is_trim_step s"
    by (simp add: buildPipeline_def ts effects_stage_no_trim_step)
  assume "\<not> needsZoom config \<and> \<not> needsCrop config \<and> \<not> needsBackground config
             \<and> \<not> needsAnnotations config"
  then show "buildPipeline numStr config =
              [\<lparr> description = ''Copy (no effects)'',
                 args = [''ffmpeg'', ''-y'', ''-i'', inputPath config, ''-c'', ''copy'',
                         outputPath config] \<rparr>]"
    by (simp add: buildPipeline_def ts effects_stage_nothing copy_step_def)
qed

text \<open>
  \<^bold>\<open>C9\<close>. The claim: when the trim regions fully cover the clip, \<open>computeKeptSegments\<close>
  returns the empty list, \<open>generateTrimFilter\<close> the empty string, and \<open>buildPipeline\<close>
  emits no trim step, so that with every other effect disabled the plan is one stream
  copy. The code misses the case of a region nested in an earlier one. For the regions
  0..60000 and 10000..20000 over a 60000 ms clip, the first of which covers the clip by
  itself, the second sets the cursor back from 60 s to 20 s: the span from 20 s to 60 s is
  kept, the trim filter is not empty, and the plan is a seek-based trim of that span.
\<close>

theorem buildPipeline_nested_cover:
  "startMs \<lparr> region_id = ''a'', startMs = 0, endMs = 60000 \<rparr> \<le> 0
   \<and> durationMs (video example_nested_cover)
       \<le> endMs \<lparr> region_id = ''a'', startMs = 0, endMs = 60000 \<rparr>
   \<and> trim example_nested_cover =
       Some [\<lparr> region_id = ''a'', startMs = 0, endMs = 60000 \<rparr>,
             \<lparr> region_id = ''b'', startMs = 10000, endMs = 20000 \<rparr>]
   \<and> computeKeptSegments
        [\<lparr> region_id = ''a'', startMs = 0, endMs = 60000 \<rparr>,
         \<lparr> region_id = ''b'', startMs = 10000, endMs = 20000 \<rparr>] 60000
       = [\<lparr> startSec = 20, endSec = 60 \<rparr>]
   \<and> generateTrimFilter print_integral
        [\<lparr> region_id = ''a'', startMs = 0, endMs = 60000 \<rparr>,
         \<lparr> region_id = ''b'', startMs = 10000, endMs = 20000 \<rparr>] 60000 True \<noteq> []
   \<and> buildPipeline print_integral example_nested_cover =
       [\<lparr> description = ''Trim video'',
          args = [''ffmpeg'', ''-y'', ''-ss'', ''20.000'', ''-to'', ''60.000'', ''-i'', ''in.mp4'',
                  ''-c:v'', ''libx264'', ''-preset'', ''fast'', ''-crf'', ''18'',
                  ''-c:a'', ''aac'', ''out.mp4''] \<rparr>]"
proof -
  have segs: "computeKeptSegments
        [\<lparr> region_id = ''a'', startMs = 0, endMs = 60000 \<rparr>,
         \<lparr> region_id = ''b'', startMs = 10000, endMs = 20000 \<rparr>] 60000
       = [\<lparr> startSec = 20, endSec = 60 \<rparr>]"
    by (simp add: computeKeptSegments_def trim_iter_def Let_def)
  have filt: "generateTrimFilter print_integral
        [\<lparr> region_id = ''a'', startMs = 0, endMs = 60000 \<rparr>,
         \<lparr> region_id = ''b'', startMs = 10000, endMs = 20000 \<rparr>] 60000 True \<noteq> []"
    by (simp add: generateTrimFilter_def segs trim_filter_iter_def join_def Let_def)
  have fx: "toFixed3 20 = ''20.000''" "toFixed3 60 = ''60.000''"
    by (simp_all add: toFixed3_def pad3_def show_nat.simps digit_char_def Let_def
        replicate_numeral_2)
  have "trim_stage print_integral example_nested_cover
      = Inl [seek_trim_step example_nested_cover \<lparr> startSec = 20, endSec = 60 \<rparr>]"
    using segs
    by (intro trim_stage_seek)
       (simp_all add: example_nested_cover_def example_plain_def needsTrim_def needsZoom_def
          needsCrop_def needsBackground_def needsAnnotations_def)
  then have "buildPipeline print_integral example_nested_cover =
      [seek_trim_step example_nested_cover \<lparr> startSec = 20, endSec = 60 \<rparr>]"
    by (simp add: buildPipeline_def)
  with segs filt fx show ?thesis
    by (simp add: seek_trim_step_def example_nested_cover_def example_plain_def)
qed

subsection \<open>Pipeline: the background step\<close>

lemma effects_stage_label_iff:
  "(\<exists>s\<in>set (effects_stage numStr config (steps, src, si)). has_background_label s)
   \<longleftrightarrow> needsBackground config \<or> (\<exists>s\<in>set steps. has_background_label s)"
  by (auto simp: effects_stage_eq has_background_label_def filter_pass_step_def
      background_step_def copy_step_def)

lemma buildPipeline_label_iff:
  "(\<exists>s\<in>set (buildPipeline numStr config). has_background_label s) \<longleftrightarrow> needsBackground config"
proof (cases "trim_stage numStr config")
  case (Inl steps)
  then show ?thesis
    using trim_stage_Inl [OF Inl] by (auto simp: buildPipeline_def)
next
  case (Inr st)
  obtain steps src si where st: "st = (steps, src, si)" by (cases st) auto
  show ?thesis
    using trim_stage_Inr [of numStr config steps src si] Inr st
    by (simp add: buildPipeline_def effects_stage_label_iff)
qed

lemma buildPipeline_ends_in_background_step:
  assumes "background config = Some b" and "0 < or_else (padding b) 0"
  shows "\<exists>pre src. buildPipeline numStr config = pre @ [background_step numStr config b src]
           \<and> (\<forall>s\<in>set pre. \<not> has_background_label s)"
proof -
  have nb: "needsBackground config" using assms by (simp add: needsBackground_def)
  have b: "the (background config) = b" using assms(1) by simp
  obtain steps src si where ts: "trim_stage numStr config = Inr (steps, src, si)"
    using trim_stage_Inl [of numStr config] nb
    by (cases "trim_stage numStr config") auto
  have nolabel: "\<forall>s\<in>set steps. \<not> has_background_label s"
    using trim_stage_Inr [OF ts] .
  show ?thesis
  proof (cases "vf_parts numStr config = []")
    case True
    then have "buildPipeline numStr config = steps @ [background_step numStr config b src]"
      by (simp add: buildPipeline_def ts effects_stage_eq nb b)
    with nolabel show ?thesis by blast
  next
    case False
    then have "buildPipeline numStr config =
        (steps @ [filter_pass_step ''Apply zoom/crop/annotations'' src (vf_parts numStr config)
                    (intermediateOutput (outputPath config) si)])
        @ [background_step numStr config b (intermediateOutput (outputPath config) si)]"
      by (simp add: buildPipeline_def ts effects_stage_eq nb b)
    moreover have "\<forall>s\<in>set (steps @ [filter_pass_step ''Apply zoom/crop/annotations'' src
        (vf_parts numStr config) (intermediateOutput (outputPath config) si)]).
          \<not> has_background_label s"
      using nolabel by (simp add: has_background_label_def filter_pass_step_def)
    ultimately show ?thesis by blast
  qed
qed

lemma is_background_step_label: "is_background_step numStr config s \<Longrightarrow> has_background_label s"
  by (auto simp: is_background_step_def has_background_label_def background_step_def
      split: option.splits)

lemma is_background_step_background_step:
  "background config = Some b \<Longrightarrow> is_background_step numStr config (background_step numStr config b src)"
  by (simp add: is_background_step_def step_input_background_step)

lemma generateBackgroundFilter_rounded:
  assumes "padding b = None \<or> padding b = Some 0" and "borderRadius b = Some r" and "0 < r"
  shows "\<exists>pre. generateBackgroundFilter numStr b w h =
           pre @ ''; '' @ rounded_mask (numStr r) @ ''; [bg][rounded]overlay=0:0:format=auto''"
proof -
  have p: "or_else (padding b) 0 = 0" using assms(1) by (auto simp: or_else_def)
  have r: "or_else (borderRadius b) 0 = r" using assms(2) by (simp add: or_else_def)
  show ?thesis
    using assms(3)
    by (cases "bg_type b")
       (simp_all add: generateBackgroundFilter_def p r colorBackgroundFilter_def blurBackgroundFilter_def
          imageBackgroundFilter_def overlay_tail_def Let_def join_def Math_round_def show_eval)
qed

text \<open>
  \<^bold>\<open>C10\<close>. \<open>buildPipeline\<close> emits a background-compositing step if and only if a
  background is present with padding strictly greater than 0. When it is, the plan ends
  in that step: the invocation that reads the current input (and the background image, if
  any), runs the \<^verbatim>\<open>-filter_complex\<close> that \<open>generateBackgroundFilter\<close> returns for the
  background, and writes the output path; no earlier step carries its description. A
  background whose padding is 0 or absent contributes no step, whatever its border
  radius; yet \<open>generateBackgroundFilter\<close>, called with such a background and a positive
  border radius, does produce a rounded-corner composite.
\<close>

theorem buildPipeline_background_step:
  "((\<exists>s\<in>set (buildPipeline numStr config). is_background_step numStr config s)
      \<longleftrightarrow> (\<exists>b. background config = Some b \<and> 0 < or_else (padding b) 0))
   \<and> (\<forall>s\<in>set (buildPipeline numStr config).
        has_background_label s \<longrightarrow> is_background_step numStr config s)
   \<and> (background config = Some b \<and> 0 < or_else (padding b) 0 \<longrightarrow>
        (\<exists>pre src. buildPipeline numStr config = pre @ [background_step numStr config b src]
           \<and> (\<forall>s\<in>set pre. \<not> has_background_label s)))
   \<and> (background config = Some b \<and> (padding b = None \<or> padding b = Some 0) \<longrightarrow>
        \<not> (\<exists>s\<in>set (buildPipeline numStr config). has_background_label s))
   \<and> ((padding b = None \<or> padding b = Some 0) \<and> borderRadius b = Some r \<and> 0 < r \<longrightarrow>
        (\<exists>pre. generateBackgroundFilter numStr b w h =
           pre @ ''; '' @ rounded_mask (numStr r) @ ''; [bg][rounded]overlay=0:0:format=auto''))"
proof (intro conjI impI ballI)
  have nb: "needsBackground config \<longleftrightarrow> (\<exists>b. background config = Some b \<and> 0 < or_else (padding b) 0)"
    by (simp add: needsBackground_def split: option.splits)
  show "(\<exists>s\<in>set (buildPipeline numStr config). is_background_step numStr config s)
      \<longleftrightarrow> (\<exists>b. background config = Some b \<and> 0 < or_else (padding b) 0)"
  proof
    assume "\<exists>s\<in>set (buildPipeline numStr config). is_background_step numStr config s"
    then have "\<exists>s\<in>set (buildPipeline numStr config). has_background_label s"
      by (blast intro: is_background_step_label)
    then show "\<exists>b. background config = Some b \<and> 0 < or_else (padding b) 0"
      by (simp only: buildPipeline_label_iff nb)
  next
    assume "\<exists>b. background config = Some b \<and> 0 < or_else (padding b) 0"
    then obtain b' where b': "background config = Some b'" "0 < or_else (padding b') 0" by blast
    from buildPipeline_ends_in_background_step [OF b', of numStr]
    obtain pre src where "buildPipeline numStr config = pre @ [background_step numStr config b' src]"
      by blast
    then have "background_step numStr config b' src \<in> set (buildPipeline numStr config)" by simp
    with is_background_step_background_step [OF b'(1), of numStr src]
    show "\<exists>s\<in>set (buildPipeline numStr config). is_background_step numStr config s" by blast
  qed
  {
    fix s
    assume s: "s \<in> set (buildPipeline numStr config)" and l: "has_background_label s"
    then have "needsBackground config" using buildPipeline_label_iff [of numStr config] by blast
    then obtain b' where b': "background config = Some b'" "0 < or_else (padding b') 0"
      using nb by blast
    from buildPipeline_ends_in_background_step [OF b', of numStr]
    obtain pre src where p: "buildPipeline numStr config = pre @ [background_step numStr config b' src]"
      and n: "\<forall>s\<in>set pre. \<not> has_background_label s" by blast
    from s l p n have "s = background_step numStr config b' src" by auto
    then show "is_background_step numStr config s"
      using is_background_step_background_step [OF b'(1), of numStr src] by simp
  }
  {
    assume "background config = Some b \<and> 0 < or_else (padding b) 0"
    then have "background config = Some b" and "0 < or_else (padding b) 0" by simp_all
    then show "\<exists>pre src. buildPipeline numStr config = pre @ [background_step numStr config b src]
           \<and> (\<forall>s\<in>set pre. \<not> has_background_label s)"
      by (rule buildPipeline_ends_in_background_step)
  }
  {
    assume "background config = Some b \<and> (padding b = None \<or> padding b = Some 0)"
    then have "\<not> needsBackground config"
      by (auto simp: needsBackground_def or_else_def)
    then show "\<not> (\<exists>s\<in>set (buildPipeline numStr config). has_background_label s)"
      by (simp only: buildPipeline_label_iff not_False_eq_True)
  }
  assume "(padding b = None \<or> padding b = Some 0) \<and> borderRadius b = Some r \<and> 0 < r"
  then have "padding b = None \<or> padding b = Some 0" and "borderRadius b = Some r" and "0 < r"
    by simp_all
  then show "\<exists>pre. generateBackgroundFilter numStr b w h =
           pre @ ''; '' @ rounded_mask (numStr r) @ ''; [bg][rounded]overlay=0:0:format=auto''"
    by (rule generateBackgroundFilter_rounded)
qed

theorem buildPipeline_background_step_witness:
  "(\<exists>pre. buildPipeline print_integral example_three_pass =
      pre @ [\<lparr> description = ''Apply background/wallpaper'',
               args = [''ffmpeg'', ''-y'', ''-i'', ''out_step1.mp4'', ''-filter_complex'',
                       generateBackgroundFilter print_integral example_padded 1920 1080,
                       ''-c:v'', ''libx264'', ''-preset'', ''fast'', ''-crf'', ''18'',
                       ''-c:a'', ''copy'', ''out.mp4''] \<rparr>])
   \<and> \<not> (\<exists>s\<in>set (buildPipeline print_integral example_disabled). has_background_label s)
   \<and> (\<exists>pre. generateBackgroundFilter print_integral example_rounded_only 1920 1080 =
          pre @ ''; '' @ rounded_mask (print_integral 12)
            @ ''; [bg][rounded]overlay=0:0:format=auto'')"
proof -
  have a: "\<exists>pre src. buildPipeline print_integral example_three_pass =
      pre @ [background_step print_integral example_three_pass example_padded src]"
    using buildPipeline_background_step
      [of print_integral example_three_pass example_padded 12 1920 1080]
    by (auto simp add: example_three_pass_def example_plain_def example_padded_def or_else_def)
  have b: "\<not> (\<exists>s\<in>set (buildPipeline print_integral example_disabled). has_background_label s)"
    and c: "\<exists>pre. generateBackgroundFilter print_integral example_rounded_only 1920 1080 =
          pre @ ''; '' @ rounded_mask (print_integral 12)
            @ ''; [bg][rounded]overlay=0:0:format=auto''"
    using buildPipeline_background_step
      [of print_integral example_disabled example_rounded_only 12 1920 1080]
    by (simp_all add: example_disabled_def example_plain_def example_rounded_only_def)
  from a obtain pre src where
    p: "buildPipeline print_integral example_three_pass =
      pre @ [background_step print_integral example_three_pass example_padded src]" by blast
  then have "last (map step_input (buildPipeline print_integral example_three_pass)) = Some src"
    by (simp add: step_input_background_step)
  then have "src = ''out_step1.mp4''"
    using example_three_pass_inputs by simp
  with p b c show ?thesis
    by (auto simp add: background_step_def example_three_pass_def example_plain_def
        example_padded_def or_else_def)
qed

subsection \<open>Pipeline: trimming and what follows it\<close>

lemma intermediateOutput_0_neq_1: "intermediateOutput p 0 \<noteq> intermediateOutput p 1"
  by (simp add: intermediateOutput_def Let_def show_nat.simps digit_char_def)

text \<open>
  \<^bold>\<open>C4\<close>, as stated, fails: with a cut in the middle, a crop and a padded background the
  plan has three steps, and the third reads the second intermediate path, not the one the
  trim step wrote.
\<close>

theorem buildPipeline_third_step_input:
  "1 < length (computeKeptSegments (the (trim example_three_pass))
                 (durationMs (video example_three_pass)))
   \<and> map step_input (buildPipeline print_integral example_three_pass)
       = [Some ''in.mp4'', Some ''out_step0.mp4'', Some ''out_step1.mp4'']
   \<and> map step_output (buildPipeline print_integral example_three_pass)
       = [Some ''out_step0.mp4'', Some ''out_step1.mp4'', Some ''out.mp4'']"
  using example_three_pass_inputs example_three_pass_outputs
  by (simp add: example_three_pass_segments)

text \<open>
  \<^bold>\<open>C4\<close>, amended. For every configuration with a non-empty trim list: if
  \<open>computeKeptSegments\<close> yields exactly one segment and no other effect is enabled,
  \<open>buildPipeline\<close> returns exactly one step, the seek-based extraction (\<^verbatim>\<open>-ss\<close>, \<^verbatim>\<open>-to\<close>)
  of that segment, written to the output path. If it yields more than one segment, the
  first step is the concat-based trim (\<^verbatim>\<open>-filter_complex\<close>) reading the input path and
  writing to the first intermediate path, and every later step reads the file written by
  the step just before it: a single later step (the filter pass, or the background step)
  reads the first intermediate path; when both follow, the filter pass reads the first
  intermediate path and writes the second, a different path, and the background step
  reads the second.
\<close>

theorem buildPipeline_trim_plan:
  assumes "trim config = Some rs" and "rs \<noteq> []"
  shows "(computeKeptSegments rs (durationMs (video config)) = [seg]
          \<and> \<not> needsZoom config \<and> \<not> needsCrop config \<and> \<not> needsBackground config
          \<and> \<not> needsAnnotations config \<longrightarrow>
            buildPipeline numStr config = [seek_trim_step config seg]
            \<and> step_output (seek_trim_step config seg) = Some (outputPath config))
       \<and> (1 < length (computeKeptSegments rs (durationMs (video config))) \<longrightarrow>
            buildPipeline numStr config =
              concat_trim_step numStr config #
              (if needsBackground config then
                 (if vf_parts numStr config \<noteq> [] then
                    [filter_pass_step ''Apply zoom/crop/annotations''
                       (intermediateOutput (outputPath config) 0) (vf_parts numStr config)
                       (intermediateOutput (outputPath config) 1),
                     background_step numStr config (the (background config))
                       (intermediateOutput (outputPath config) 1)]
                  else [background_step numStr config (the (background config))
                          (intermediateOutput (outputPath config) 0)])
               else if vf_parts numStr config \<noteq> [] then
                 [filter_pass_step ''Apply video effects (zoom/crop/annotations)''
                    (intermediateOutput (outputPath config) 0) (vf_parts numStr config)
                    (outputPath config)]
               else [])
            \<and> chained (buildPipeline numStr config)
            \<and> step_input (concat_trim_step numStr config) = Some (inputPath config)
            \<and> step_output (concat_trim_step numStr config)
                = Some (intermediateOutput (outputPath config) 0))
       \<and> step_input (filter_pass_step d src ps dst) = Some src
       \<and> step_output (filter_pass_step d src ps dst) = Some dst
       \<and> step_input (background_step numStr config b src) = Some src
       \<and> step_output (background_step numStr config b src) = Some (outputPath config)
       \<and> intermediateOutput (outputPath config) 0 \<noteq> intermediateOutput (outputPath config) 1"
proof (intro conjI impI)
  have nt: "needsTrim config" using assms by (simp add: needsTrim_def)
  {
    assume a: "computeKeptSegments rs (durationMs (video config)) = [seg]
          \<and> \<not> needsZoom config \<and> \<not> needsCrop config \<and> \<not> needsBackground config
          \<and> \<not> needsAnnotations config"
    with nt assms show "buildPipeline numStr config = [seek_trim_step config seg]"
      by (simp add: buildPipeline_def trim_stage_seek)
    show "step_output (seek_trim_step config seg) = Some (outputPath config)"
      by (simp add: step_output_def seek_trim_step_def)
  }
  show "step_input (filter_pass_step d src ps dst) = Some src"
    by (rule step_input_filter_pass_step)
  show "step_output (filter_pass_step d src ps dst) = Some dst"
    by (rule step_output_filter_pass_step)
  show "step_input (background_step numStr config b src) = Some src"
    by (rule step_input_background_step)
  show "step_output (background_step numStr config b src) = Some (outputPath config)"
    by (rule step_output_background_step)
  show "intermediateOutput (outputPath config) 0 \<noteq> intermediateOutput (outputPath config) 1"
    by (rule intermediateOutput_0_neq_1)
  show out: "step_output (concat_trim_step numStr config)
                = Some (intermediateOutput (outputPath config) 0)"
    by (simp add: step_output_def concat_trim_step_def)
  show "step_input (concat_trim_step numStr config) = Some (inputPath config)"
    by (simp add: step_input_def concat_trim_step_def)
  assume "1 < length (computeKeptSegments rs (durationMs (video config)))"
  with nt assms have bp: "buildPipeline numStr config =
      effects_stage numStr config
        ([concat_trim_step numStr config], intermediateOutput (outputPath config) 0, 1)"
    by (simp add: buildPipeline_def trim_stage_concat)
  then show "buildPipeline numStr config =
              concat_trim_step numStr config #
              (if needsBackground config then
                 (if vf_parts numStr config \<noteq> [] then
                    [filter_pass_step ''Apply zoom/crop/annotations''
                       (intermediateOutput (outputPath config) 0) (vf_parts numStr config)
                       (intermediateOutput (outputPath config) 1),
                     background_step numStr config (the (background config))
                       (intermediateOutput (outputPath config) 1)]
                  else [background_step numStr config (the (background config))
                          (intermediateOutput (outputPath config) 0)])
               else if vf_parts numStr config \<noteq> [] then
                 [filter_pass_step ''Apply video effects (zoom/crop/annotations)''
                    (intermediateOutput (outputPath config) 0) (vf_parts numStr config)
                    (outputPath config)]
               else [])"
    by (simp add: effects_stage_eq)
  have "chained (effects_stage numStr config
        ([concat_trim_step numStr config], intermediateOutput (outputPath config) 0, 1))"
    by (rule effects_stage_chained) (simp_all add: out)
  with bp show "chained (buildPipeline numStr config)" by simp
qed

theorem buildPipeline_trim_plan_witness:
  "buildPipeline print_integral example_seek =
     [\<lparr> description = ''Trim video'',
        args = [''ffmpeg'', ''-y'', ''-ss'', ''5.000'', ''-to'', ''60.000'', ''-i'', ''in.mp4'',
                ''-c:v'', ''libx264'', ''-preset'', ''fast'', ''-crf'', ''18'',
                ''-c:a'', ''aac'', ''out.mp4''] \<rparr>]
   \<and> buildPipeline print_integral example_three_pass =
     [concat_trim_step print_integral example_three_pass,
      filter_pass_step ''Apply zoom/crop/annotations'' ''out_step0.mp4''
        [''crop=1920:1026:0:54''] ''out_step1.mp4'',
      background_step print_integral example_three_pass example_padded ''out_step1.mp4'']"
proof -
  have a: "buildPipeline print_integral example_seek
      = [seek_trim_step example_seek \<lparr> startSec = 5, endSec = 60 \<rparr>]"
    using buildPipeline_trim_plan
        [of example_seek "[\<lparr> region_id = ''t1'', startMs = 0, endMs = 5000 \<rparr>]"
            "\<lparr> startSec = 5, endSec = 60 \<rparr>" print_integral]
      example_seek_segments
    by (simp add: example_seek_def example_plain_def needsZoom_def needsCrop_def
        needsBackground_def needsAnnotations_def)
  have b: "buildPipeline print_integral example_three_pass =
     [concat_trim_step print_integral example_three_pass,
      filter_pass_step ''Apply zoom/crop/annotations'' ''out_step0.mp4''
        [''crop=1920:1026:0:54''] ''out_step1.mp4'',
      background_step print_integral example_three_pass example_padded ''out_step1.mp4'']"
    using buildPipeline_trim_plan
        [of example_three_pass "[\<lparr> region_id = ''t1'', startMs = 5000, endMs = 10000 \<rparr>]"
            "\<lparr> startSec = 5, endSec = 60 \<rparr>" print_integral]
      example_three_pass_segments example_three_pass_needsBackground example_three_pass_vf_parts
      intermediateOutput_example_0 intermediateOutput_example_1
    by (simp add: example_three_pass_def example_plain_def)
  have "toFixed3 5 = ''5.000''" and "toFixed3 60 = ''60.000''"
    by (simp_all add: toFixed3_def pad3_def show_nat.simps digit_char_def Let_def
        replicate_numeral_2)
  with a b show ?thesis
    by (simp add: seek_trim_step_def example_seek_def example_plain_def)
qed

end
